theory Spec2Isabelle
  imports Main
begin

section \<open>The file provider: one request, one action, one file\<close>

text \<open>
  The program (\<^verbatim>\<open>examples/file-python/src/file_provider.py\<close>) reads one JSON document from
  standard input, dispatches on \<^verbatim>\<open>--action\<close> and runs one of four handlers on a file named
  by a path. The embedding keeps the program's structure: the parsed document is a
  \<open>json\<close> value, every exception the handlers can meet is a value of \<open>exn\<close>, the
  filesystem is passed through explicitly and returned, and what \<^verbatim>\<open>print\<close> writes is a list
  of documents.

  The handlers call \<^verbatim>\<open>pathlib\<close>, \<^verbatim>\<open>tempfile\<close> and the operating system. Their behaviour is
  written out as far as the handlers depend on it: how \<^verbatim>\<open>Path\<close> parses and prints a POSIX
  path; how Python hands a path name to the system (a name with a NUL or with a
  character that has no encoding is refused before any call); how the system resolves
  a path name in a tree of directories and regular files, with its limits on the
  length of a name and of a path; which error each call reports; that text is written
  in UTF-8, which has no encoding for a lone surrogate; and the newline translation of
  text-mode reading. Python is CPython 3.10 to 3.13 on Linux.
  Left out: permissions (the process may search, read and write whatever is there),
  symbolic links, a full disk, and the bytes of a file: a file holds the text that was
  written to it.
\<close>

subsection \<open>Strings\<close>

text \<open>
  A Python string is a sequence of code points; JSON can spell every one of them, a
  lone surrogate (\<^verbatim>\<open>"\ud800"\<close>) included. \<open>ascii\<close> turns a literal into its code points.
\<close>

type_synonym ustr = "nat list"

definition ascii :: "string \<Rightarrow> ustr" where
  "ascii s = map of_char s"

abbreviation slash :: nat where
  "slash \<equiv> 47"

abbreviation dot :: nat where
  "dot \<equiv> 46"

abbreviation cr :: nat where
  "cr \<equiv> 13"

abbreviation lf :: nat where
  "lf \<equiv> 10"

text \<open>
  UTF-8 encodes every code point up to \<^verbatim>\<open>U+10FFFF\<close> but the surrogates. For file names
  Python uses UTF-8 with the \<^verbatim>\<open>surrogateescape\<close> handler, which also takes the surrogates
  \<^verbatim>\<open>U+DC80\<close> to \<^verbatim>\<open>U+DCFF\<close> (one byte each).
\<close>

definition text_encodable :: "nat \<Rightarrow> bool" where
  "text_encodable c = ((c < 0xD800 \<or> 0xDFFF < c) \<and> c \<le> 0x10FFFF)"

definition escaped :: "nat \<Rightarrow> bool" where
  "escaped c = (0xDC80 \<le> c \<and> c \<le> 0xDCFF)"

definition name_encodable :: "nat \<Rightarrow> bool" where
  "name_encodable c = (text_encodable c \<or> escaped c)"

definition utf8_len :: "nat \<Rightarrow> nat" where
  "utf8_len c =
     (if c < 0x80 \<or> escaped c then 1
      else if c < 0x800 then 2
      else if c < 0x10000 then 3
      else 4)"

text \<open>The length of a name in bytes, which is what the system's limits count.\<close>

definition blen :: "ustr \<Rightarrow> nat" where
  "blen s = sum_list (map utf8_len s)"

definition NAME_MAX :: nat where
  "NAME_MAX = 255"

definition PATH_MAX :: nat where
  "PATH_MAX = 4096"

text \<open>\<^verbatim>\<open>s.split('/')\<close>: cut at every slash, keeping empty pieces.\<close>

fun split_sep :: "ustr \<Rightarrow> ustr list" where
  "split_sep [] = [[]]"
| "split_sep (c # cs) =
     (if c = slash then [] # split_sep cs
      else (case split_sep cs of [] \<Rightarrow> [[c]] | w # ws \<Rightarrow> (c # w) # ws))"

text \<open>\<^verbatim>\<open>'/'.join(xs)\<close>.\<close>

fun join_sep :: "ustr list \<Rightarrow> ustr" where
  "join_sep [] = []"
| "join_sep [x] = x"
| "join_sep (x # y # ys) = x @ slash # join_sep (y # ys)"

text \<open>
  Reading in text mode with \<^verbatim>\<open>newline=None\<close> (the default of \<^verbatim>\<open>Path.read_text\<close>):
  \<^verbatim>\<open>'\r\n'\<close> and a lone \<^verbatim>\<open>'\r'\<close> both come back as \<^verbatim>\<open>'\n'\<close>. Writing in text mode on POSIX
  changes nothing (\<^verbatim>\<open>os.linesep\<close> is \<^verbatim>\<open>'\n'\<close>).
\<close>

fun universal_newlines :: "ustr \<Rightarrow> ustr" where
  "universal_newlines [] = []"
| "universal_newlines [c] = (if c = cr then [lf] else [c])"
| "universal_newlines (c # d # cs) =
     (if c = cr \<and> d = lf then lf # universal_newlines cs
      else if c = cr then lf # universal_newlines (d # cs)
      else c # universal_newlines (d # cs))"

subsection \<open>JSON values and Python exceptions\<close>

text \<open>
  What \<^verbatim>\<open>json.loads\<close> returns. \<open>JObj\<close> lists the members of an object in the order of the
  document; \<^verbatim>\<open>json.loads\<close> keeps the last of several members with one key. \<open>JNum\<close> stands
  for every number: the program only tells strings and objects from the rest.
\<close>

datatype json =
    JNull
  | JBool bool
  | JNum int
  | JStr ustr
  | JArr "json list"
  | JObj "(ustr \<times> json) list"

datatype errno = ENOENT | ENOTDIR | EISDIR | EEXIST | ENAMETOOLONG

text \<open>\<^verbatim>\<open>UnicodeEncodeError\<close> is a subclass of \<^verbatim>\<open>ValueError\<close>.\<close>

datatype exn =
    JSONDecodeError
  | AttributeError
  | TypeError
  | ValueError
  | UnicodeEncodeError
  | OSError errno
  | SystemExit nat

text \<open>\<^verbatim>\<open>x.get(k, default)\<close>: only a dict has the method.\<close>

definition py_get :: "json \<Rightarrow> ustr \<Rightarrow> json \<Rightarrow> exn + json" where
  "py_get x k dflt =
     (case x of
        JObj d \<Rightarrow> (case map_of (rev d) k of None \<Rightarrow> Inr dflt | Some v \<Rightarrow> Inr v)
      | _ \<Rightarrow> Inl AttributeError)"

subsection \<open>\<^verbatim>\<open>pathlib\<close>: a POSIX path as root and components\<close>

record path =
  root :: ustr
  tail :: "ustr list"

text \<open>
  \<^verbatim>\<open>posixpath.splitroot\<close> without the drive, which is always empty: a path that starts
  with exactly two slashes keeps them as its root, any other absolute path has the
  root \<^verbatim>\<open>'/'\<close>.
\<close>

definition splitroot :: "ustr \<Rightarrow> ustr \<times> ustr" where
  "splitroot p =
     (if take 1 p \<noteq> [slash] then ([], p)
      else if take 1 (drop 1 p) \<noteq> [slash] \<or> take 1 (drop 2 p) = [slash]
      then ([slash], dropWhile (\<lambda>c. c = slash) (drop 1 p))
      else (take 2 p, drop 2 p))"

text \<open>
  \<^verbatim>\<open>PurePath._parse_path\<close> keeps the components \<^verbatim>\<open>x\<close> with \<^verbatim>\<open>x and x != '.'\<close>: empty
  components and \<^verbatim>\<open>'.'\<close> are dropped, \<^verbatim>\<open>'..'\<close> stays.
\<close>

abbreviation keep :: "ustr \<Rightarrow> bool" where
  "keep \<equiv> (\<lambda>x. x \<noteq> [] \<and> x \<noteq> [dot])"

definition parse_path :: "ustr \<Rightarrow> path" where
  "parse_path s =
     (if s = [] then \<lparr>root = [], tail = []\<rparr>
      else (case splitroot s of
              (r, rel) \<Rightarrow> \<lparr>root = r, tail = filter keep (split_sep rel)\<rparr>))"

text \<open>\<^verbatim>\<open>str(path)\<close>: the root and the joined components, \<^verbatim>\<open>'.'\<close> for the empty path.\<close>

definition str_path :: "path \<Rightarrow> ustr" where
  "str_path p =
     (if root p \<noteq> [] then root p @ join_sep (tail p)
      else if tail p = [] then [dot]
      else join_sep (tail p))"

text \<open>\<^verbatim>\<open>Path(x)\<close>: a \<^verbatim>\<open>TypeError\<close> unless \<open>x\<close> is a string.\<close>

definition Path :: "json \<Rightarrow> exn + path" where
  "Path x = (case x of JStr s \<Rightarrow> Inr (parse_path s) | _ \<Rightarrow> Inl TypeError)"

subsection \<open>The filesystem and the system calls\<close>

text \<open>
  A filesystem maps a location (the names from the root down) to what is there. The
  root itself is always a directory. Path resolution walks the components of a path
  name from the root or from the working directory: every component, also an empty
  one or \<^verbatim>\<open>'.'\<close>, is looked up in a directory, \<^verbatim>\<open>'..'\<close> steps to the parent, and a
  directory refuses to look up a name of more than \<open>NAME_MAX\<close> bytes. A path of
  \<open>PATH_MAX\<close> bytes or more is refused before the walk.
\<close>

datatype node = File ustr | Dir

type_synonym location = "ustr list"

type_synonym filesystem = "location \<Rightarrow> node option"

text \<open>
  What a process brings along: its working directory, the directory \<^verbatim>\<open>tempfile\<close> has
  settled on, and the candidate names its random name sequence will yield.
\<close>

record environment =
  cwd :: location
  tempdir :: location
  names :: "ustr list"

definition node_at :: "filesystem \<Rightarrow> location \<Rightarrow> node option" where
  "node_at fs loc = (if loc = [] then Some Dir else fs loc)"

fun walk :: "filesystem \<Rightarrow> location \<Rightarrow> ustr list \<Rightarrow> errno + location" where
  "walk fs cur [] = Inr cur"
| "walk fs cur (c # cs) =
     (case node_at fs cur of
        None \<Rightarrow> Inl ENOENT
      | Some (File _) \<Rightarrow> Inl ENOTDIR
      | Some Dir \<Rightarrow>
          if c = [] \<or> c = [dot] then walk fs cur cs
          else if c = [dot, dot] then walk fs (butlast cur) cs
          else if NAME_MAX < blen c then Inl ENAMETOOLONG
          else walk fs (cur @ [c]) cs)"

definition namei :: "environment \<Rightarrow> filesystem \<Rightarrow> ustr \<Rightarrow> errno + location" where
  "namei env fs s =
     (if s = [] then Inl ENOENT
      else if PATH_MAX \<le> blen s then Inl ENAMETOOLONG
      else walk fs (if take 1 s = [slash] then [] else cwd env) (split_sep s))"

text \<open>
  Before a call Python turns the path name into bytes: a character without an
  encoding is a \<^verbatim>\<open>UnicodeEncodeError\<close>, a NUL is a \<^verbatim>\<open>ValueError\<close> (\<^verbatim>\<open>embedded null byte\<close>).
\<close>

definition fsconv :: "ustr \<Rightarrow> exn option" where
  "fsconv s =
     (if \<not> list_all name_encodable s then Some UnicodeEncodeError
      else if 0 \<in> set s then Some ValueError
      else None)"

text \<open>Where a call arrives with its path name, or the exception it raises on the way.\<close>

definition resolve :: "environment \<Rightarrow> filesystem \<Rightarrow> ustr \<Rightarrow> exn + location" where
  "resolve env fs s =
     (case fsconv s of
        Some e \<Rightarrow> Inl e
      | None \<Rightarrow> (case namei env fs s of Inl e \<Rightarrow> Inl (OSError e) | Inr loc \<Rightarrow> Inr loc))"

text \<open>\<^verbatim>\<open>os.stat\<close>.\<close>

definition os_stat :: "environment \<Rightarrow> filesystem \<Rightarrow> ustr \<Rightarrow> exn + node" where
  "os_stat env fs s =
     (case resolve env fs s of
        Inl e \<Rightarrow> Inl e
      | Inr loc \<Rightarrow> (case node_at fs loc of None \<Rightarrow> Inl (OSError ENOENT) | Some n \<Rightarrow> Inr n))"

text \<open>Opening for reading and reading to the end.\<close>

definition os_read :: "environment \<Rightarrow> filesystem \<Rightarrow> ustr \<Rightarrow> exn + ustr" where
  "os_read env fs s =
     (case os_stat env fs s of
        Inl e \<Rightarrow> Inl e
      | Inr Dir \<Rightarrow> Inl (OSError EISDIR)
      | Inr (File c) \<Rightarrow> Inr c)"

text \<open>A new, empty regular file at a location where nothing is: its parent must be a directory.\<close>

definition os_creat :: "filesystem \<Rightarrow> location \<Rightarrow> exn + location \<times> filesystem" where
  "os_creat fs loc =
     (case node_at fs (butlast loc) of
        None \<Rightarrow> Inl (OSError ENOENT)
      | Some (File _) \<Rightarrow> Inl (OSError ENOTDIR)
      | Some Dir \<Rightarrow> Inr (loc, fs(loc \<mapsto> File [])))"

text \<open>
  \<^verbatim>\<open>open(O_WRONLY | O_CREAT | O_TRUNC)\<close>: the file is there and empty afterwards, whether
  it was there before or not. The result is the place of the open file.
\<close>

definition os_open_trunc :: "environment \<Rightarrow> filesystem \<Rightarrow> ustr \<Rightarrow> exn + location \<times> filesystem" where
  "os_open_trunc env fs s =
     (case resolve env fs s of
        Inl e \<Rightarrow> Inl e
      | Inr loc \<Rightarrow>
          (case node_at fs loc of
             Some Dir \<Rightarrow> Inl (OSError EISDIR)
           | Some (File _) \<Rightarrow> Inr (loc, fs(loc \<mapsto> File []))
           | None \<Rightarrow> os_creat fs loc))"

text \<open>\<^verbatim>\<open>open(O_RDWR | O_CREAT | O_EXCL)\<close>: creates an empty file or fails if anything is there.\<close>

definition os_open_excl :: "environment \<Rightarrow> filesystem \<Rightarrow> ustr \<Rightarrow> exn + location \<times> filesystem" where
  "os_open_excl env fs s =
     (case resolve env fs s of
        Inl e \<Rightarrow> Inl e
      | Inr loc \<Rightarrow>
          (case node_at fs loc of
             Some _ \<Rightarrow> Inl (OSError EEXIST)
           | None \<Rightarrow> os_creat fs loc))"

text \<open>\<^verbatim>\<open>os.unlink\<close>: removes a regular file; a directory is refused.\<close>

definition os_unlink :: "environment \<Rightarrow> filesystem \<Rightarrow> ustr \<Rightarrow> exn + filesystem" where
  "os_unlink env fs s =
     (case resolve env fs s of
        Inl e \<Rightarrow> Inl e
      | Inr loc \<Rightarrow>
          (case node_at fs loc of
             None \<Rightarrow> Inl (OSError ENOENT)
           | Some Dir \<Rightarrow> Inl (OSError EISDIR)
           | Some (File _) \<Rightarrow> Inr (fs(loc := None))))"

subsection \<open>The library calls of the handlers\<close>

text \<open>
  \<^verbatim>\<open>Path.exists\<close>: \<^verbatim>\<open>stat\<close>; an \<^verbatim>\<open>OSError\<close> that means "not there" (\<^verbatim>\<open>ENOENT\<close>, \<^verbatim>\<open>ENOTDIR\<close>) and
  a \<^verbatim>\<open>ValueError\<close> give \<^verbatim>\<open>False\<close>, any other error is raised again.
\<close>

definition Path_exists :: "environment \<Rightarrow> filesystem \<Rightarrow> path \<Rightarrow> exn + bool" where
  "Path_exists env fs p =
     (case os_stat env fs (str_path p) of
        Inl (OSError e) \<Rightarrow> if e = ENOENT \<or> e = ENOTDIR then Inr False else Inl (OSError e)
      | Inl ValueError \<Rightarrow> Inr False
      | Inl UnicodeEncodeError \<Rightarrow> Inr False
      | Inl e \<Rightarrow> Inl e
      | Inr n \<Rightarrow> Inr True)"

definition Path_read_text :: "environment \<Rightarrow> filesystem \<Rightarrow> path \<Rightarrow> exn + ustr" where
  "Path_read_text env fs p =
     (case os_read env fs (str_path p) of
        Inl e \<Rightarrow> Inl e
      | Inr c \<Rightarrow> Inr (universal_newlines c))"

text \<open>
  \<^verbatim>\<open>Path.write_text\<close> checks that the data is a string, opens the file with truncation
  and writes the encoded text. A text that cannot be encoded raises after the open:
  the file is left empty. The result is the exception, if any, and the filesystem.
\<close>

definition Path_write_text ::
  "environment \<Rightarrow> filesystem \<Rightarrow> path \<Rightarrow> json \<Rightarrow> exn option \<times> filesystem" where
  "Path_write_text env fs p data =
     (case data of
        JStr c \<Rightarrow>
          (case os_open_trunc env fs (str_path p) of
             Inl e \<Rightarrow> (Some e, fs)
           | Inr (loc, fs1) \<Rightarrow>
               if list_all text_encodable c then (None, fs1(loc \<mapsto> File c))
               else (Some UnicodeEncodeError, fs1))
      | _ \<Rightarrow> (Some TypeError, fs))"

text \<open>\<^verbatim>\<open>Path.unlink(missing_ok)\<close>: only \<^verbatim>\<open>FileNotFoundError\<close> (\<^verbatim>\<open>ENOENT\<close>) is swallowed.\<close>

definition Path_unlink :: "environment \<Rightarrow> filesystem \<Rightarrow> path \<Rightarrow> bool \<Rightarrow> exn + filesystem" where
  "Path_unlink env fs p missing_ok =
     (case os_unlink env fs (str_path p) of
        Inl e \<Rightarrow> if e = OSError ENOENT \<and> missing_ok then Inr fs else Inl e
      | Inr fs' \<Rightarrow> Inr fs')"

text \<open>\<^verbatim>\<open>os.path.join\<close> of two pieces.\<close>

definition os_path_join :: "ustr \<Rightarrow> ustr \<Rightarrow> ustr" where
  "os_path_join a b =
     (if take 1 b = [slash] then b
      else if a = [] \<or> last a = slash then a @ b
      else a @ slash # b)"

text \<open>
  \<^verbatim>\<open>tempfile.gettempdir()\<close> returns an absolute name (\<^verbatim>\<open>tempfile\<close> passes its directory
  through \<^verbatim>\<open>os.path.abspath\<close>): the root and the names of \<open>tempdir env\<close> below it.
\<close>

definition gettempdir :: "environment \<Rightarrow> ustr" where
  "gettempdir env = slash # join_sep (tempdir env)"

text \<open>The name \<^verbatim>\<open>tempfile\<close> tries for a candidate: directory, prefix \<^verbatim>\<open>tmp\<close>, candidate.\<close>

definition candidate_file :: "environment \<Rightarrow> ustr \<Rightarrow> ustr" where
  "candidate_file env n = os_path_join (gettempdir env) (ascii ''tmp'' @ n)"

text \<open>
  \<^verbatim>\<open>tempfile.NamedTemporaryFile(delete=False)\<close>. Each candidate is opened with
  \<^verbatim>\<open>O_EXCL\<close>; a name that is taken (\<^verbatim>\<open>FileExistsError\<close>) moves on to the next candidate,
  any other error is raised, and running out of candidates is a \<^verbatim>\<open>FileExistsError\<close>.
  The result is the name of the new, empty file.
\<close>

fun mkstemp_inner :: "environment \<Rightarrow> filesystem \<Rightarrow> ustr list \<Rightarrow> exn + (ustr \<times> filesystem)" where
  "mkstemp_inner env fs [] = Inl (OSError EEXIST)"
| "mkstemp_inner env fs (n # ns) =
     (case os_open_excl env fs (candidate_file env n) of
        Inl e \<Rightarrow> if e = OSError EEXIST then mkstemp_inner env fs ns else Inl e
      | Inr (loc, fs') \<Rightarrow> Inr (candidate_file env n, fs'))"

definition NamedTemporaryFile :: "environment \<Rightarrow> filesystem \<Rightarrow> exn + (ustr \<times> filesystem)" where
  "NamedTemporaryFile env fs = mkstemp_inner env fs (names env)"

subsection \<open>The handlers\<close>

text \<open>
  A handler returns the exception that ended it (if any), the documents it printed
  and the filesystem it leaves.
\<close>

record run =
  raised :: "exn option"
  printed :: "json list"
  fs_after :: filesystem

definition stop :: "exn \<Rightarrow> filesystem \<Rightarrow> run" where
  "stop e fs = \<lparr>raised = Some e, printed = [], fs_after = fs\<rparr>"

definition respond :: "ustr \<Rightarrow> json \<Rightarrow> filesystem \<Rightarrow> run" where
  "respond i content fs =
     \<lparr>raised = None, printed = [JObj [(ascii ''id'', JStr i), (ascii ''content'', content)]], fs_after = fs\<rparr>"

text \<open>\<^verbatim>\<open>data.get("input", {}).get("content", "")\<close>.\<close>

definition input_content :: "json \<Rightarrow> exn + json" where
  "input_content data =
     (case py_get data (ascii ''input'') (JObj []) of
        Inl e \<Rightarrow> Inl e
      | Inr inp \<Rightarrow> py_get inp (ascii ''content'') (JStr []))"

definition handle_create :: "environment \<Rightarrow> json \<Rightarrow> filesystem \<Rightarrow> run" where
  "handle_create env data fs =
     (case input_content data of
        Inl e \<Rightarrow> stop e fs
      | Inr content \<Rightarrow>
     (case NamedTemporaryFile env fs of
        Inl e \<Rightarrow> stop e fs
      | Inr (name, fs1) \<Rightarrow>
     (case Path_write_text env fs1 (parse_path name) content of
        (Some e, fs2) \<Rightarrow> stop e fs2
      | (None, fs2) \<Rightarrow> respond (str_path (parse_path name)) content fs2)))"

definition handle_read :: "environment \<Rightarrow> json \<Rightarrow> filesystem \<Rightarrow> run" where
  "handle_read env data fs =
     (case py_get data (ascii ''id'') JNull of
        Inl e \<Rightarrow> stop e fs
      | Inr i \<Rightarrow>
     (case Path i of
        Inl e \<Rightarrow> stop e fs
      | Inr p \<Rightarrow>
     (case Path_exists env fs p of
        Inl e \<Rightarrow> stop e fs
      | Inr ex \<Rightarrow>
          if \<not> ex then stop (SystemExit 22) fs
          else
     (case Path_read_text env fs p of
        Inl e \<Rightarrow> stop e fs
      | Inr text \<Rightarrow> respond (str_path p) (JStr text) fs))))"

definition handle_update :: "environment \<Rightarrow> json \<Rightarrow> filesystem \<Rightarrow> run" where
  "handle_update env data fs =
     (case py_get data (ascii ''id'') JNull of
        Inl e \<Rightarrow> stop e fs
      | Inr i \<Rightarrow>
     (case Path i of
        Inl e \<Rightarrow> stop e fs
      | Inr p \<Rightarrow>
     (case input_content data of
        Inl e \<Rightarrow> stop e fs
      | Inr content \<Rightarrow>
     (case Path_write_text env fs p content of
        (Some e, fs') \<Rightarrow> stop e fs'
      | (None, fs') \<Rightarrow> respond (str_path p) content fs'))))"

definition handle_delete :: "environment \<Rightarrow> json \<Rightarrow> filesystem \<Rightarrow> run" where
  "handle_delete env data fs =
     (case py_get data (ascii ''id'') JNull of
        Inl e \<Rightarrow> stop e fs
      | Inr i \<Rightarrow>
     (case Path i of
        Inl e \<Rightarrow> stop e fs
      | Inr p \<Rightarrow>
     (case Path_unlink env fs p True of
        Inl e \<Rightarrow> stop e fs
      | Inr fs' \<Rightarrow> \<lparr>raised = None, printed = [], fs_after = fs'\<rparr>)))"

subsection \<open>The process\<close>

text \<open>
  \<open>main\<close> gets the action (\<^verbatim>\<open>click\<close> has checked it against the four choices) and what
  \<^verbatim>\<open>json.loads\<close> makes of standard input (\<open>None\<close> when it raises). The process ends with
  the code of \<^verbatim>\<open>sys.exit\<close>, with 1 after any other exception and with 0 otherwise.
\<close>

datatype action = Create | Read | Update | Delete

record outcome =
  exit_code :: nat
  stdout :: "json list"
  files :: filesystem

definition exit_status :: "exn option \<Rightarrow> nat" where
  "exit_status r =
     (case r of
        None \<Rightarrow> 0
      | Some (SystemExit n) \<Rightarrow> n
      | Some _ \<Rightarrow> 1)"

definition finish :: "run \<Rightarrow> outcome" where
  "finish r = \<lparr>exit_code = exit_status (raised r), stdout = printed r, files = fs_after r\<rparr>"

definition main :: "environment \<Rightarrow> action \<Rightarrow> json option \<Rightarrow> filesystem \<Rightarrow> outcome" where
  "main env act input_data fs =
     finish
       (case input_data of
          None \<Rightarrow> stop JSONDecodeError fs
        | Some data \<Rightarrow>
            (case act of
               Create \<Rightarrow> handle_create env data fs
             | Read \<Rightarrow> handle_read env data fs
             | Update \<Rightarrow> handle_update env data fs
             | Delete \<Rightarrow> handle_delete env data fs))"

subsection \<open>Requests, responses and the path a request names\<close>

text \<open>The request bodies the properties speak of.\<close>

definition create_request :: "ustr \<Rightarrow> json" where
  "create_request c = JObj [(ascii ''input'', JObj [(ascii ''content'', JStr c)])]"

definition id_request :: "ustr \<Rightarrow> json" where
  "id_request p = JObj [(ascii ''id'', JStr p)]"

definition update_request :: "ustr \<Rightarrow> ustr \<Rightarrow> json" where
  "update_request p c = JObj [(ascii ''id'', JStr p), (ascii ''input'', JObj [(ascii ''content'', JStr c)])]"

text \<open>The response document with an \<^verbatim>\<open>id\<close> and a \<^verbatim>\<open>content\<close>.\<close>

definition response :: "ustr \<Rightarrow> ustr \<Rightarrow> json" where
  "response i c = JObj [(ascii ''id'', JStr i), (ascii ''content'', JStr c)]"

text \<open>The \<^verbatim>\<open>id\<close> of a printed document, and the ids among the documents of a process.\<close>

definition doc_id :: "json \<Rightarrow> ustr option" where
  "doc_id d =
     (case d of
        JObj m \<Rightarrow> (case map_of (rev m) (ascii ''id'') of Some (JStr i) \<Rightarrow> Some i | _ \<Rightarrow> None)
      | _ \<Rightarrow> None)"

definition response_ids :: "json list \<Rightarrow> ustr list" where
  "response_ids ds = List.map_filter doc_id ds"

text \<open>
  The handlers never hand the \<^verbatim>\<open>id\<close> of a request to the system as it is: they make a
  \<^verbatim>\<open>Path\<close> of it and work on \<^verbatim>\<open>str\<close> of that. This is the path a request names.
\<close>

definition named_path :: "ustr \<Rightarrow> ustr" where
  "named_path i = str_path (parse_path i)"

text \<open>
  A request body without \<^verbatim>\<open>input.content\<close>: an object with no \<^verbatim>\<open>input\<close>, or one whose
  \<^verbatim>\<open>input\<close> is an object with no \<^verbatim>\<open>content\<close>.
\<close>

definition lacks_content :: "json \<Rightarrow> bool" where
  "lacks_content data =
     (case data of
        JObj d \<Rightarrow>
          (case map_of (rev d) (ascii ''input'') of
             None \<Rightarrow> True
           | Some (JObj d') \<Rightarrow> map_of (rev d') (ascii ''content'') = None
           | Some _ \<Rightarrow> False)
      | _ \<Rightarrow> False)"

text \<open>
  A content that \<^verbatim>\<open>write_text\<close> can write is a string without a lone surrogate; a request
  body is good for a create if its \<^verbatim>\<open>input.content\<close> is such a string, or is missing as
  in \<open>lacks_content\<close>.
\<close>

definition writable :: "json \<Rightarrow> bool" where
  "writable content = (case content of JStr c \<Rightarrow> list_all text_encodable c | _ \<Rightarrow> False)"

definition good_request :: "json \<Rightarrow> bool" where
  "good_request data = (case input_content data of Inr content \<Rightarrow> writable content | _ \<Rightarrow> False)"

text \<open>
  A candidate the system accepts as the last name of a path in the temporary
  directory: no slash, no NUL, encodable, and within the limits on lengths.
\<close>

definition usable :: "environment \<Rightarrow> ustr \<Rightarrow> bool" where
  "usable env n =
     (slash \<notin> set n \<and> fsconv n = None \<and>
      blen (ascii ''tmp'' @ n) \<le> NAME_MAX \<and>
      blen (candidate_file env n) < PATH_MAX)"

text \<open>A candidate whose name is not taken.\<close>

definition free :: "environment \<Rightarrow> filesystem \<Rightarrow> ustr \<Rightarrow> bool" where
  "free env fs n = (os_stat env fs (candidate_file env n) = Inl (OSError ENOENT))"

text \<open>
  The temporary directory has room for \<open>k\<close> new files among the candidates \<open>ns\<close>: it is
  a directory, the candidates are usable, and \<open>k\<close> different ones are free.
\<close>

definition room :: "nat \<Rightarrow> environment \<Rightarrow> filesystem \<Rightarrow> ustr list \<Rightarrow> bool" where
  "room k env fs ns =
     (os_stat env fs (gettempdir env) = Inr Dir \<and>
      list_all (usable env) ns \<and>
      k \<le> length (filter (free env fs) (remdups ns)))"

definition roomy :: "nat \<Rightarrow> environment \<Rightarrow> filesystem \<Rightarrow> bool" where
  "roomy k env fs = room k env fs (names env)"

definition can_allocate :: "environment \<Rightarrow> filesystem \<Rightarrow> bool" where
  "can_allocate env fs = roomy 1 env fs"

subsection \<open>Several create invocations\<close>

text \<open>One after the other: each process starts on the filesystem the one before left.\<close>

fun creates :: "(environment \<times> json) list \<Rightarrow> filesystem \<Rightarrow> outcome list" where
  "creates [] fs = []"
| "creates ((env, d) # rs) fs =
     main env Create (Some d) fs # creates rs (files (main env Create (Some d) fs))"

text \<open>
  At the same time: every create process is cut into the steps between which another
  process can run. A step makes at most one change to the filesystem, as one system
  call does: one \<^verbatim>\<open>O_EXCL\<close> open of a candidate in the loop of \<^verbatim>\<open>tempfile\<close>, or the
  \<^verbatim>\<open>write_text\<close> of the content (its open and its write go to the file this process
  alone has allocated). A schedule names the process that makes the next step.
\<close>

datatype proc =
    Start environment json
  | Allocating environment json "ustr list"
  | Writing environment json ustr
  | Finished "exn option" "json list"

fun step :: "proc \<Rightarrow> filesystem \<Rightarrow> proc \<times> filesystem" where
  "step (Start env data) fs =
     (case input_content data of
        Inl e \<Rightarrow> (Finished (Some e) [], fs)
      | Inr content \<Rightarrow> (Allocating env content (names env), fs))"
| "step (Allocating env content []) fs = (Finished (Some (OSError EEXIST)) [], fs)"
| "step (Allocating env content (n # ns)) fs =
     (case os_open_excl env fs (candidate_file env n) of
        Inl e \<Rightarrow>
          if e = OSError EEXIST then (Allocating env content ns, fs)
          else (Finished (Some e) [], fs)
      | Inr (loc, fs') \<Rightarrow> (Writing env content (candidate_file env n), fs'))"
| "step (Writing env content name) fs =
     (case Path_write_text env fs (parse_path name) content of
        (Some e, fs') \<Rightarrow> (Finished (Some e) [], fs')
      | (None, fs') \<Rightarrow>
          (Finished None
             [JObj [(ascii ''id'', JStr (str_path (parse_path name))), (ascii ''content'', content)]],
           fs'))"
| "step (Finished r out) fs = (Finished r out, fs)"

fun steps :: "nat \<Rightarrow> proc \<Rightarrow> filesystem \<Rightarrow> proc \<times> filesystem" where
  "steps 0 p fs = (p, fs)"
| "steps (Suc k) p fs = (case step p fs of (p', fs') \<Rightarrow> steps k p' fs')"

definition sched_step :: "nat \<Rightarrow> proc list \<times> filesystem \<Rightarrow> proc list \<times> filesystem" where
  "sched_step i cfg =
     (case cfg of
        (ps, fs) \<Rightarrow>
          if i < length ps then (case step (ps ! i) fs of (p', fs') \<Rightarrow> (ps[i := p'], fs'))
          else (ps, fs))"

definition run_schedule :: "nat list \<Rightarrow> proc list \<times> filesystem \<Rightarrow> proc list \<times> filesystem" where
  "run_schedule sch cfg = fold sched_step sch cfg"

text \<open>
  The documents a process has printed so far, and the paths it holds: the path of its
  temporary file once that is allocated (as \<^verbatim>\<open>Path\<close> prints it, which is the \<^verbatim>\<open>id\<close> it is
  going to answer with), the ids it has printed once it is done.
\<close>

fun proc_out :: "proc \<Rightarrow> json list" where
  "proc_out (Finished r out) = out"
| "proc_out p = []"

fun held :: "proc \<Rightarrow> ustr list" where
  "held (Writing env content name) = [named_path name]"
| "held (Finished r out) = response_ids out"
| "held p = []"

text \<open>
  A schedule that lets every process run to its end gives each process as many steps
  as it can need: one to read the request, one for each candidate and one to write.
\<close>

definition fair :: "nat list \<Rightarrow> (environment \<times> json) list \<Rightarrow> bool" where
  "fair sch reqs =
     list_all (\<lambda>k. length (names (fst (reqs ! k))) + 2 \<le> count_list sch k) [0..<length reqs]"

text \<open>
  A process that has ended without an exception and has printed one document, which
  carries an \<^verbatim>\<open>id\<close>.
\<close>

fun answered :: "proc \<Rightarrow> bool" where
  "answered (Finished r out) = (r = None \<and> length out = 1 \<and> length (response_ids out) = 1)"
| "answered p = False"

text \<open>
  What carries a process to its answer, whatever the others do in between. A process
  that has not allocated its file yet is \<open>pending\<close>; \<open>todo\<close> bounds the steps a process
  has left; and a process is \<open>sound\<close> among \<open>k\<close> pending ones if its content can be
  written and, as long as it is pending, its temporary directory has room for \<open>k\<close>
  files among the candidates it has left, and afterwards its temporary file is there.
\<close>

fun pending :: "proc \<Rightarrow> bool" where
  "pending (Start env data) = True"
| "pending (Allocating env content ns) = True"
| "pending p = False"

fun todo :: "proc \<Rightarrow> nat" where
  "todo (Start env data) = length (names env) + 2"
| "todo (Allocating env content ns) = length ns + 1"
| "todo (Writing env content name) = 1"
| "todo (Finished r out) = 0"

definition is_file :: "environment \<Rightarrow> filesystem \<Rightarrow> ustr \<Rightarrow> bool" where
  "is_file env fs name = (case os_stat env fs name of Inr (File c) \<Rightarrow> True | _ \<Rightarrow> False)"

fun sound :: "nat \<Rightarrow> filesystem \<Rightarrow> proc \<Rightarrow> bool" where
  "sound k fs (Start env data) = (good_request data \<and> roomy k env fs)"
| "sound k fs (Allocating env content ns) = (writable content \<and> room k env fs ns)"
| "sound k fs (Writing env content name) = (writable content \<and> is_file env fs name)"
| "sound k fs (Finished r out) = answered (Finished r out)"

text \<open>
  Where an absolute path name leads when every directory on the way is there: the
  walk without the lookups.
\<close>

fun lex_walk :: "location \<Rightarrow> ustr list \<Rightarrow> location" where
  "lex_walk cur [] = cur"
| "lex_walk cur (c # cs) =
     (if c = [] \<or> c = [dot] then lex_walk cur cs
      else if c = [dot, dot] then lex_walk (butlast cur) cs
      else lex_walk (cur @ [c]) cs)"

definition lex_loc :: "ustr \<Rightarrow> location" where
  "lex_loc s = lex_walk [] (split_sep s)"

subsection \<open>A sample system\<close>

text \<open>
  \<^verbatim>\<open>/tmp\<close> and \<^verbatim>\<open>/home\<close> are directories, \<^verbatim>\<open>/home/testfile\<close> is a file, the process runs in
  \<^verbatim>\<open>/home\<close> and would draw two candidate names.
\<close>

definition fs0 :: filesystem where
  "fs0 = [[ascii ''tmp''] \<mapsto> Dir, [ascii ''home''] \<mapsto> Dir, [ascii ''home'', ascii ''testfile''] \<mapsto> File (ascii ''old content'')]"

definition env0 :: environment where
  "env0 = \<lparr>cwd = [ascii ''home''], tempdir = [ascii ''tmp''], names = [ascii ''e67t2ada'', ascii ''k3v_0qzx'']\<rparr>"


text \<open>A name of 300 letters \<^verbatim>\<open>a\<close>: longer than a directory accepts.\<close>

definition long_name :: ustr where
  "long_name = replicate 300 97"

section \<open>Properties\<close>

subsection \<open>Splitting and joining\<close>

lemma split_sep_ne [simp]: "split_sep s \<noteq> []"
  by (induction s) (auto split: list.splits)

lemma split_sep_noslash: "slash \<notin> set a \<Longrightarrow> split_sep a = [a]"
  by (induction a) auto

lemma split_sep_append: "split_sep (a @ slash # b) = split_sep a @ split_sep b"
proof (induction a)
  case Nil
  show ?case by simp
next
  case (Cons c a)
  then show ?case by (cases "split_sep a") auto
qed

lemma split_sep_pieces: "x \<in> set (split_sep s) \<Longrightarrow> slash \<notin> set x"
proof (induction s arbitrary: x)
  case Nil
  then show ?case by simp
next
  case (Cons c s)
  then show ?case by (cases "split_sep s") (auto split: if_splits)
qed

lemma split_join:
  "xs \<noteq> [] \<Longrightarrow> (\<And>x. x \<in> set xs \<Longrightarrow> slash \<notin> set x) \<Longrightarrow> split_sep (join_sep xs) = xs"
proof (induction xs rule: join_sep.induct)
  case 1
  then show ?case by simp
next
  case (2 x)
  then show ?case by (simp add: split_sep_noslash)
next
  case (3 x y ys)
  then show ?case by (simp add: split_sep_append split_sep_noslash)
qed

lemma join_sep_first:
  "xs \<noteq> [] \<Longrightarrow> hd xs \<noteq> [] \<Longrightarrow> join_sep xs \<noteq> [] \<and> hd (join_sep xs) = hd (hd xs)"
  by (induction xs rule: join_sep.induct) auto

lemma filter_split_lstrip:
  "filter keep (split_sep (dropWhile (\<lambda>c. c = slash) s)) = filter keep (split_sep s)"
  by (induction s) auto

lemma join_sep_Cons: "join_sep ((c # w) # ws) = c # join_sep (w # ws)"
  by (cases ws) simp_all

lemma join_split: "join_sep (split_sep s) = s"
proof (induction s)
  case Nil
  show ?case by simp
next
  case (Cons c s)
  show ?case
  proof (cases "split_sep s")
    case Nil
    then show ?thesis by simp
  next
    case (Cons w ws)
    with Cons.IH show ?thesis by (simp add: join_sep_Cons)
  qed
qed

lemma split_sep_set: "x \<in> set (split_sep s) \<Longrightarrow> a \<in> set x \<Longrightarrow> a \<in> set s"
proof (induction s arbitrary: x)
  case Nil
  then show ?case by simp
next
  case (Cons c s)
  then show ?case by (cases "split_sep s") (fastforce split: if_splits)+
qed

lemma join_sep_set: "set (join_sep xs) \<subseteq> insert slash (\<Union> (set ` set xs))"
  by (induction xs rule: join_sep.induct) auto

subsection \<open>Lengths in bytes\<close>

lemma blen_Nil [simp]: "blen [] = 0"
  by (simp add: blen_def)

lemma blen_Cons: "blen (c # s) = utf8_len c + blen s"
  by (simp add: blen_def)

lemma blen_append [simp]: "blen (a @ b) = blen a + blen b"
  by (simp add: blen_def)

lemma utf8_len_pos: "0 < utf8_len c"
  by (simp add: utf8_len_def)

lemma utf8_len_ascii: "c < 128 \<Longrightarrow> utf8_len c = 1"
  by (simp add: utf8_len_def)

lemma blen_slash [simp]: "blen (slash # s) = Suc (blen s)"
  by (simp add: blen_Cons utf8_len_ascii)

lemma blen_dot [simp]: "blen (dot # s) = Suc (blen s)"
  by (simp add: blen_Cons utf8_len_ascii)

lemma blen_pos: "s \<noteq> [] \<Longrightarrow> 0 < blen s"
  by (cases s) (simp_all add: blen_Cons utf8_len_pos)

lemma blen_join: "blen (join_sep xs) = sum_list (map blen xs) + (length xs - 1)"
  by (induction xs rule: join_sep.induct) simp_all

lemma sum_list_filter_le: "sum_list (map f (filter P xs)) \<le> sum_list (map (f :: 'a \<Rightarrow> nat) xs)"
  by (induction xs) simp_all

lemma blen_join_filter: "blen (join_sep (filter P xs)) \<le> blen (join_sep xs)"
proof -
  have "length (filter P xs) - 1 \<le> length xs - 1"
    using length_filter_le [of P xs] by arith
  with sum_list_filter_le [of blen P xs] show ?thesis
    unfolding blen_join by simp
qed

lemma blen_join_pieces: "blen (join_sep (filter P (split_sep s))) \<le> blen s"
  using blen_join_filter [of P "split_sep s"] by (simp add: join_split)

subsection \<open>Walking through the directories\<close>

text \<open>
  A walk that arrives has found a directory at every step; it arrives at the same place
  without the components that \<^verbatim>\<open>pathlib\<close> drops; it fails only with \<^verbatim>\<open>ENOENT\<close>,
  \<^verbatim>\<open>ENOTDIR\<close> or \<^verbatim>\<open>ENAMETOOLONG\<close>; and a walk over two lists is the walk over the second from where the
  first arrives.
\<close>

lemma walk_dir: "walk fs cur cs = Inr loc \<Longrightarrow> cs \<noteq> [] \<Longrightarrow> node_at fs cur = Some Dir"
  by (cases cs) (auto split: option.splits node.splits)

lemma walk_filter: "walk fs cur cs = Inr loc \<Longrightarrow> walk fs cur (filter keep cs) = Inr loc"
proof (induction cs arbitrary: cur)
  case Nil
  then show ?case by simp
next
  case (Cons c cs)
  from Cons.prems have d: "node_at fs cur = Some Dir"
    by (rule walk_dir) simp
  show ?case
  proof (cases "keep c")
    case True
    with Cons d show ?thesis by (auto split: if_splits)
  next
    case False
    with Cons d show ?thesis by auto
  qed
qed

lemma walk_errno:
  "walk fs cur cs = Inl e \<Longrightarrow> e = ENOENT \<or> e = ENOTDIR \<or> e = ENAMETOOLONG"
  by (induction cs arbitrary: cur) (auto split: option.splits node.splits if_splits)

lemma walk_append:
  "walk fs cur (xs @ ys) = (case walk fs cur xs of Inl e \<Rightarrow> Inl e | Inr l \<Rightarrow> walk fs l ys)"
  by (induction xs arbitrary: cur) (auto split: option.splits node.splits)

subsection \<open>What \<^verbatim>\<open>Path\<close> makes of a string\<close>

lemma tail_parse_pieces: "x \<in> set (tail (parse_path s)) \<Longrightarrow> keep x \<and> slash \<notin> set x"
  by (auto simp: parse_path_def splitroot_def dest: split_sep_pieces split: if_splits)

lemma split_join_tail:
  "tail (parse_path s) \<noteq> [] \<Longrightarrow> split_sep (join_sep (tail (parse_path s))) = tail (parse_path s)"
  by (rule split_join) (auto dest: tail_parse_pieces)

lemma join_tail_first:
  assumes "tail (parse_path s) \<noteq> []"
  shows "join_sep (tail (parse_path s)) \<noteq> []" and "take 1 (join_sep (tail (parse_path s))) \<noteq> [slash]"
proof -
  let ?t = "tail (parse_path s)"
  from assms have h: "hd ?t \<in> set ?t" by simp
  then have k: "hd ?t \<noteq> []" and n: "slash \<notin> set (hd ?t)"
    using tail_parse_pieces by blast+
  from join_sep_first [OF assms k] have j: "join_sep ?t \<noteq> []" and e: "hd (join_sep ?t) = hd (hd ?t)"
    by simp_all
  show "join_sep ?t \<noteq> []" by (rule j)
  from k n have "hd (hd ?t) \<noteq> slash" by (cases "hd ?t") auto
  with j e show "take 1 (join_sep ?t) \<noteq> [slash]" by (cases "join_sep ?t") auto
qed


lemma parse_path_rel:
  "s \<noteq> [] \<Longrightarrow> take 1 s \<noteq> [slash] \<Longrightarrow>
   parse_path s = \<lparr>root = [], tail = filter keep (split_sep s)\<rparr>"
  by (simp add: parse_path_def splitroot_def)

lemma parse_path_abs:
  "root (parse_path (slash # s)) = [slash] \<or> root (parse_path (slash # s)) = [slash, slash]"
  "tail (parse_path (slash # s)) = filter keep (split_sep s)"
proof -
  show "root (parse_path (slash # s)) = [slash] \<or> root (parse_path (slash # s)) = [slash, slash]"
    by (cases s) (auto simp: parse_path_def splitroot_def)
  show "tail (parse_path (slash # s)) = filter keep (split_sep s)"
  proof (cases "take 1 s \<noteq> [slash] \<or> take 1 (drop 1 s) = [slash]")
    case True
    then have "tail (parse_path (slash # s)) =
        filter keep (split_sep (dropWhile (\<lambda>c. c = slash) s))"
      by (simp add: parse_path_def splitroot_def)
    then show ?thesis by (simp add: filter_split_lstrip)
  next
    case False
    then obtain t where s: "s = slash # t" by (cases s) auto
    with False show ?thesis by (simp add: parse_path_def splitroot_def)
  qed
qed

lemma walk_root_skip: "walk fs [] ([] # cs) = walk fs [] cs"
  by (simp add: node_at_def)

lemma namei_walk:
  "s \<noteq> [] \<Longrightarrow> blen s < PATH_MAX \<Longrightarrow>
   namei env fs s = walk fs (if take 1 s = [slash] then [] else cwd env) (split_sep s)"
  by (simp add: namei_def)

lemma namei_Inr:
  assumes "namei env fs s = Inr loc"
  shows "s \<noteq> []" and "blen s < PATH_MAX"
    and "walk fs (if take 1 s = [slash] then [] else cwd env) (split_sep s) = Inr loc"
  using assms by (auto simp: namei_def split: if_splits)

text \<open>What \<^verbatim>\<open>Path\<close> prints is no longer than what it was given, and made of the same characters.\<close>

lemma parse_path_abs2:
  "take 1 t \<noteq> [slash] \<Longrightarrow>
   parse_path (slash # slash # t) = \<lparr>root = [slash, slash], tail = filter keep (split_sep t)\<rparr>"
  by (simp add: parse_path_def splitroot_def)

lemma parse_path_abs1:
  "take 1 t \<noteq> [slash] \<or> take 1 (drop 1 t) = [slash] \<Longrightarrow>
   parse_path (slash # t) = \<lparr>root = [slash], tail = filter keep (split_sep t)\<rparr>"
  by (simp add: parse_path_def splitroot_def filter_split_lstrip)

lemma parse_path_cases:
  obtains (empty) "s = []" "parse_path s = \<lparr>root = [], tail = []\<rparr>"
  | (rel) "s \<noteq> []" "take 1 s \<noteq> [slash]"
      "parse_path s = \<lparr>root = [], tail = filter keep (split_sep s)\<rparr>"
  | (abs1) t where "s = slash # t"
      "parse_path s = \<lparr>root = [slash], tail = filter keep (split_sep t)\<rparr>"
  | (abs2) t where "s = slash # slash # t"
      "parse_path s = \<lparr>root = [slash, slash], tail = filter keep (split_sep t)\<rparr>"
proof (cases "s = []")
  case True
  then show ?thesis by (intro empty) (simp_all add: parse_path_def)
next
  case ne: False
  show ?thesis
  proof (cases "take 1 s = [slash]")
    case False
    with ne show ?thesis by (intro rel) (simp_all add: parse_path_rel)
  next
    case True
    with ne obtain t where s: "s = slash # t" by (cases s) auto
    show ?thesis
    proof (cases "take 1 t \<noteq> [slash] \<or> take 1 (drop 1 t) = [slash]")
      case True
      then show ?thesis using s by (intro abs1 [of t]) (simp_all add: parse_path_abs1)
    next
      case False
      then obtain u where t: "t = slash # u" and u: "take 1 u \<noteq> [slash]"
        by (cases t) auto
      show ?thesis using s t u by (intro abs2 [of u]) (simp_all add: parse_path_abs2)
    qed
  qed
qed

lemma blen_str_parse: "s \<noteq> [] \<Longrightarrow> blen (str_path (parse_path s)) \<le> blen s"
proof (cases s rule: parse_path_cases)
  case empty
  assume "s \<noteq> []"
  with empty show ?thesis by simp
next
  case rel
  from rel(1) have "0 < blen s" by (rule blen_pos)
  with rel(3) blen_join_pieces [of keep s] show ?thesis
    by (simp add: str_path_def)
next
  case (abs1 t)
  with blen_join_pieces [of keep t] show ?thesis
    by (simp add: str_path_def)
next
  case (abs2 t)
  with blen_join_pieces [of keep t] show ?thesis
    by (simp add: str_path_def)
qed

lemma set_join_pieces: "set (join_sep (filter P (split_sep s))) \<subseteq> insert slash (set s)"
  using join_sep_set [of "filter P (split_sep s)"] split_sep_set [of _ s] by fastforce

lemma set_str_parse: "set (str_path (parse_path s)) \<subseteq> insert dot (insert slash (set s))"
proof (cases s rule: parse_path_cases)
  case empty
  then show ?thesis by (simp add: str_path_def)
next
  case rel
  with set_join_pieces [of keep s] show ?thesis
    by (auto simp: str_path_def)
next
  case (abs1 t)
  with set_join_pieces [of keep t] show ?thesis
    by (auto simp: str_path_def)
next
  case (abs2 t)
  with set_join_pieces [of keep t] show ?thesis
    by (auto simp: str_path_def)
qed

lemma str_parse_ne: "str_path (parse_path s) \<noteq> []"
proof (cases "root (parse_path s) = [] \<and> tail (parse_path s) \<noteq> []")
  case True
  with join_tail_first(1) [of s] show ?thesis by (simp add: str_path_def)
next
  case False
  then show ?thesis by (auto simp: str_path_def)
qed

lemma fsconv_None: "fsconv s = None \<longleftrightarrow> list_all name_encodable s \<and> 0 \<notin> set s"
  by (simp add: fsconv_def)

lemma fsconv_str_parse:
  assumes "fsconv s = None"
  shows "fsconv (str_path (parse_path s)) = None"
proof -
  have "name_encodable dot" "name_encodable slash"
    by (simp_all add: name_encodable_def text_encodable_def)
  with assms set_str_parse [of s] show ?thesis
    unfolding fsconv_None list_all_iff by auto
qed

lemma namei_str_abs:
  assumes r: "root p = [slash] \<or> root p = [slash, slash]"
    and b: "blen (str_path p) < PATH_MAX"
  shows "namei env fs (str_path p) = walk fs [] (split_sep (join_sep (tail p)))"
proof -
  from r have h: "take 1 (str_path p) = [slash]" "str_path p \<noteq> []"
    by (auto simp: str_path_def)
  from r have "split_sep (str_path p) = [] # split_sep (join_sep (tail p)) \<or>
      split_sep (str_path p) = [] # [] # split_sep (join_sep (tail p))"
    by (auto simp: str_path_def)
  then have "walk fs [] (split_sep (str_path p)) = walk fs [] (split_sep (join_sep (tail p)))"
    by (auto simp: node_at_def)
  with namei_walk [OF h(2) b, of env fs] h(1) show ?thesis by simp
qed

text \<open>
  Where the system arrives with a path name, it arrives with what \<^verbatim>\<open>Path\<close> makes of
  it: \<^verbatim>\<open>pathlib\<close> drops only components the walk passes without moving.
\<close>

lemma namei_named:
  assumes "namei env fs s = Inr loc"
  shows "namei env fs (str_path (parse_path s)) = Inr loc"
proof -
  let ?p = "parse_path s"
  note a = namei_Inr [OF assms]
  from a(1) have ne: "s \<noteq> []" .
  from blen_str_parse [OF ne] a(2) have b: "blen (str_path ?p) < PATH_MAX" by simp
  show ?thesis
  proof (cases "take 1 s = [slash]")
    case False
    with ne have p: "?p = \<lparr>root = [], tail = filter keep (split_sep s)\<rparr>"
      by (rule parse_path_rel)
    from a(3) False have w: "walk fs (cwd env) (split_sep s) = Inr loc"
      by simp
    then have wf: "walk fs (cwd env) (tail ?p) = Inr loc"
      using p walk_filter by simp
    show ?thesis
    proof (cases "tail ?p = []")
      case True
      from w have "node_at fs (cwd env) = Some Dir" by (rule walk_dir) simp
      with True wf p show ?thesis by (simp add: str_path_def namei_def PATH_MAX_def)
    next
      case nonempty: False
      from nonempty have s: "str_path ?p = join_sep (tail ?p)"
        using p by (simp add: str_path_def)
      have j: "join_sep (tail ?p) \<noteq> []" "take 1 (join_sep (tail ?p)) \<noteq> [slash]"
        using join_tail_first [OF nonempty] by simp_all
      from b s have "blen (join_sep (tail ?p)) < PATH_MAX" by simp
      from namei_walk [OF j(1) this, of env fs] j(2) s
      have "namei env fs (str_path ?p) = walk fs (cwd env) (split_sep (join_sep (tail ?p)))"
        by simp
      with wf split_join_tail [OF nonempty] show ?thesis by simp
    qed
  next
    case True
    with ne obtain t where s: "s = slash # t" by (cases s) auto
    from a(3) s have w: "walk fs [] (split_sep t) = Inr loc"
      by (simp add: node_at_def)
    have tl: "tail ?p = filter keep (split_sep t)" unfolding s by (rule parse_path_abs)
    from w have wf: "walk fs [] (tail ?p) = Inr loc"
      using tl walk_filter by simp
    have "namei env fs (str_path ?p) = walk fs [] (split_sep (join_sep (tail ?p)))"
      using b by (intro namei_str_abs) (simp add: s parse_path_abs)
    also have "\<dots> = walk fs [] (tail ?p)"
    proof (cases "tail ?p = []")
      case True
      then show ?thesis by (simp add: node_at_def)
    next
      case False
      then show ?thesis by (simp add: split_join_tail)
    qed
    finally show ?thesis using wf by simp
  qed
qed

text \<open>Parsing what \<^verbatim>\<open>str\<close> printed gives the same path back.\<close>

lemma filter_keep_tail: "filter keep (tail (parse_path s)) = tail (parse_path s)"
  by (rule filter_True) (auto dest: tail_parse_pieces)

lemma root_parse_abs1:
  "take 1 t \<noteq> [slash] \<Longrightarrow> root (parse_path (slash # t)) = [slash]"
  by (simp add: parse_path_def splitroot_def)

lemma root_parse_abs2:
  "take 1 t \<noteq> [slash] \<Longrightarrow> root (parse_path (slash # slash # t)) = [slash, slash]"
  by (simp add: parse_path_def splitroot_def)

lemma split_join_tail':
  "filter keep (split_sep (join_sep (tail (parse_path s)))) = tail (parse_path s)"
proof (cases "tail (parse_path s) = []")
  case True
  then show ?thesis by simp
next
  case False
  then show ?thesis by (simp add: split_join_tail filter_keep_tail)
qed

lemma take1_join_tail: "take 1 (join_sep (tail (parse_path s))) \<noteq> [slash]"
proof (cases "tail (parse_path s) = []")
  case True
  then show ?thesis by simp
next
  case False
  then show ?thesis by (rule join_tail_first)
qed

lemma parse_str_parse:
  "root (parse_path (str_path (parse_path s))) = root (parse_path s) \<and>
   tail (parse_path (str_path (parse_path s))) = tail (parse_path s)"
proof -
  let ?p = "parse_path s"
  let ?j = "join_sep (tail ?p)"
  consider (empty) "s = []" | (rel) "s \<noteq> []" "take 1 s \<noteq> [slash]" | (abs) t where "s = slash # t"
    by (cases s) auto
  then show ?thesis
  proof cases
    case empty
    then show ?thesis by (simp add: parse_path_def str_path_def splitroot_def)
  next
    case rel
    then have p: "?p = \<lparr>root = [], tail = filter keep (split_sep s)\<rparr>"
      by (rule parse_path_rel)
    show ?thesis
    proof (cases "tail ?p = []")
      case True
      with p have "str_path ?p = [dot]" by (simp add: str_path_def)
      with True p show ?thesis by (simp add: parse_path_def splitroot_def)
    next
      case False
      with p have s: "str_path ?p = ?j" by (simp add: str_path_def)
      have q: "parse_path ?j = \<lparr>root = [], tail = filter keep (split_sep ?j)\<rparr>"
        using join_tail_first [OF False] by (intro parse_path_rel)
      have r: "root ?p = []" using p by simp
      show ?thesis unfolding s q using r by (simp add: split_join_tail')
    qed
  next
    case (abs t)
    have tl: "tail (parse_path (slash # u)) = filter keep (split_sep u)" for u
      by (rule parse_path_abs)
    from abs parse_path_abs(1) [of t]
    consider (one) "root ?p = [slash]" | (two) "root ?p = [slash, slash]" by auto
    then show ?thesis
    proof cases
      case one
      then have s: "str_path ?p = slash # ?j" by (simp add: str_path_def)
      show ?thesis
        unfolding s using one take1_join_tail [of s]
        by (simp add: root_parse_abs1 tl split_join_tail')
    next
      case two
      then have s: "str_path ?p = slash # slash # ?j" by (simp add: str_path_def)
      show ?thesis
        unfolding s using two take1_join_tail [of s]
        by (simp add: root_parse_abs2 tl split_join_tail')
    qed
  qed
qed

lemma str_path_cong: "root q = root p \<Longrightarrow> tail q = tail p \<Longrightarrow> str_path q = str_path p"
  by (simp add: str_path_def)

lemma str_parse_idem: "str_path (parse_path (str_path (parse_path s))) = str_path (parse_path s)"
  by (rule str_path_cong) (simp_all add: parse_str_parse)


subsection \<open>System calls\<close>

lemma fsconv_Some: "fsconv s = Some e \<Longrightarrow> e = UnicodeEncodeError \<or> e = ValueError"
  by (auto simp: fsconv_def split: if_splits)

lemma resolve_Inr: "resolve env fs s = Inr loc \<longleftrightarrow> fsconv s = None \<and> namei env fs s = Inr loc"
  by (auto simp: resolve_def split: option.splits sum.splits)

lemma resolve_Inl:
  "resolve env fs s = Inl e \<Longrightarrow> e = UnicodeEncodeError \<or> e = ValueError \<or> (\<exists>n. e = OSError n)"
  by (auto simp: resolve_def dest: fsconv_Some split: option.splits sum.splits)

lemma resolve_no_exit: "resolve env fs s \<noteq> Inl (SystemExit k)"
  using resolve_Inl [of env fs s "SystemExit k"] by auto

lemma os_stat_no_exit: "os_stat env fs s \<noteq> Inl (SystemExit k)"
  using resolve_no_exit [of env fs s k]
  by (auto simp: os_stat_def split: sum.splits option.splits)

lemma node_at_upd: "cur \<noteq> loc \<Longrightarrow> node_at (fs(loc := x)) cur = node_at fs cur"
  by (simp add: node_at_def)

lemma walk_Cons_Dir:
  "node_at fs cur = Some Dir \<Longrightarrow>
   walk fs cur (c # cs) =
     (if c = [] \<or> c = [dot] then walk fs cur cs
      else if c = [dot, dot] then walk fs (butlast cur) cs
      else if NAME_MAX < blen c then Inl ENAMETOOLONG
      else walk fs (cur @ [c]) cs)"
  by simp

text \<open>Putting or removing a file where no directory is does not change where a walk arrives.\<close>

lemma walk_upd:
  "walk fs cur cs = Inr l \<Longrightarrow> node_at fs loc \<noteq> Some Dir \<Longrightarrow> walk (fs(loc := x)) cur cs = Inr l"
proof (induction cs arbitrary: cur)
  case Nil
  then show ?case by simp
next
  case (Cons c cs)
  from Cons.prems(1) have d: "node_at fs cur = Some Dir"
    by (rule walk_dir) simp
  with Cons.prems(2) have "cur \<noteq> loc" by auto
  then have d': "node_at (fs(loc := x)) cur = Some Dir"
    using d by (simp add: node_at_upd)
  from Cons.prems(1) have
    "(if c = [] \<or> c = [dot] then walk fs cur cs
      else if c = [dot, dot] then walk fs (butlast cur) cs
      else if NAME_MAX < blen c then Inl ENAMETOOLONG
      else walk fs (cur @ [c]) cs) = Inr l"
    by (simp only: walk_Cons_Dir [OF d])
  then have
    "(if c = [] \<or> c = [dot] then walk (fs(loc := x)) cur cs
      else if c = [dot, dot] then walk (fs(loc := x)) (butlast cur) cs
      else if NAME_MAX < blen c then Inl ENAMETOOLONG
      else walk (fs(loc := x)) (cur @ [c]) cs) = Inr l"
    using Cons.IH Cons.prems(2) by (auto split: if_splits simp del: fun_upd_apply)
  then show ?case by (simp only: walk_Cons_Dir [OF d'])
qed

lemma namei_upd:
  "namei env fs s = Inr l \<Longrightarrow> node_at fs loc \<noteq> Some Dir \<Longrightarrow> namei env (fs(loc := x)) s = Inr l"
  by (auto simp: namei_def walk_upd split: if_splits)

lemma resolve_upd:
  "resolve env fs s = Inr l \<Longrightarrow> node_at fs loc \<noteq> Some Dir \<Longrightarrow>
   resolve env (fs(loc := x)) s = Inr l"
  unfolding resolve_Inr by (simp add: namei_upd)

lemma namei_abs: "take 1 s = [slash] \<Longrightarrow> namei env' fs s = namei env fs s"
  by (simp add: namei_def)

lemma resolve_abs: "take 1 s = [slash] \<Longrightarrow> resolve env' fs s = resolve env fs s"
  by (simp add: resolve_def namei_abs [of s env' fs env] split: option.splits)

lemma node_at_None: "node_at fs loc = None \<Longrightarrow> loc \<noteq> [] \<and> fs loc = None"
  by (auto simp: node_at_def split: if_splits)

lemma node_at_File: "node_at fs loc = Some (File c) \<Longrightarrow> loc \<noteq> [] \<and> fs loc = Some (File c)"
  by (auto simp: node_at_def split: if_splits)

lemma node_at_same: "loc \<noteq> [] \<Longrightarrow> node_at (fs(loc := x)) loc = x"
  by (simp add: node_at_def)

lemma walk_lex: "walk fs cur cs = Inr l \<Longrightarrow> l = lex_walk cur cs"
proof (induction cs arbitrary: cur)
  case Nil
  then show ?case by simp
next
  case (Cons c cs)
  from Cons.prems have d: "node_at fs cur = Some Dir"
    by (rule walk_dir) simp
  with Cons show ?case by (auto split: if_splits)
qed

lemma namei_lex: "take 1 s = [slash] \<Longrightarrow> namei env fs s = Inr l \<Longrightarrow> l = lex_loc s"
  by (auto simp: namei_def lex_loc_def dest: walk_lex split: if_splits)

lemma resolve_lex: "take 1 s = [slash] \<Longrightarrow> resolve env fs s = Inr l \<Longrightarrow> l = lex_loc s"
  unfolding resolve_Inr using namei_lex [of s env fs l] by simp

lemma node_at_mono: "node_at fs l \<noteq> None \<Longrightarrow> node_at (fs(loc \<mapsto> x)) l \<noteq> None"
  by (auto simp: node_at_def split: if_splits)

subsection \<open>The path a request names\<close>

text \<open>
  Naming is idempotent, and the named path leads where the \<^verbatim>\<open>id\<close> itself leads whenever
  the system can resolve the \<^verbatim>\<open>id\<close>: what is found at the \<^verbatim>\<open>id\<close> is found at the named
  path. (The converse fails for an \<^verbatim>\<open>id\<close> such as \<^verbatim>\<open>'file/'\<close> or \<^verbatim>\<open>''\<close>, which the system
  rejects and \<^verbatim>\<open>Path\<close> turns into \<^verbatim>\<open>'file'\<close> and \<^verbatim>\<open>'.'\<close>.)
\<close>

lemma named_path_idem: "named_path (named_path i) = named_path i"
  by (simp add: named_path_def str_parse_idem)

lemma namei_named_path: "namei env fs s = Inr loc \<Longrightarrow> namei env fs (named_path s) = Inr loc"
  by (simp add: named_path_def namei_named)

lemma resolve_named: "resolve env fs s = Inr loc \<Longrightarrow> resolve env fs (named_path s) = Inr loc"
  unfolding resolve_Inr by (simp add: namei_named_path) (simp add: named_path_def fsconv_str_parse)

lemma os_stat_named: "os_stat env fs s = Inr n \<Longrightarrow> os_stat env fs (named_path s) = Inr n"
  by (auto simp: os_stat_def dest: resolve_named split: sum.splits option.splits)

lemma os_read_named: "os_read env fs s = Inr c \<Longrightarrow> os_read env fs (named_path s) = Inr c"
  by (auto simp: os_read_def dest: os_stat_named split: sum.splits node.splits)

lemma named_path_abs: "take 1 s = [slash] \<Longrightarrow> take 1 (named_path s) = [slash]"
proof -
  assume "take 1 s = [slash]"
  then obtain t where s: "s = slash # t" by (cases s) auto
  from parse_path_abs(1) [of t] show ?thesis
    unfolding s named_path_def by (auto simp: str_path_def)
qed

lemma os_stat_abs: "take 1 s = [slash] \<Longrightarrow> os_stat env' fs s = os_stat env fs s"
  by (simp add: os_stat_def resolve_abs [of s env' fs env])

text \<open>A single plain name is its own named path, and one that is too long is refused.\<close>

lemma named_path_plain:
  assumes "s \<noteq> []" "slash \<notin> set s" "s \<noteq> [dot]"
  shows "named_path s = s"
proof -
  from assms(1,2) have "take 1 s \<noteq> [slash]" by (cases s) auto
  with assms(1) have "parse_path s = \<lparr>root = [], tail = filter keep (split_sep s)\<rparr>"
    by (rule parse_path_rel)
  with assms show ?thesis
    by (simp add: named_path_def str_path_def split_sep_noslash)
qed

lemma long_not_dot: "NAME_MAX < blen c \<Longrightarrow> c \<noteq> [] \<and> c \<noteq> [dot] \<and> c \<noteq> [dot, dot]"
  by (auto simp: NAME_MAX_def)

lemma walk_long:
  assumes "node_at fs cur = Some Dir" "NAME_MAX < blen c"
  shows "walk fs cur (c # cs) = Inl ENAMETOOLONG"
  using assms long_not_dot [of c] by simp

lemma resolve_long:
  assumes "slash \<notin> set s" "fsconv s = None" "NAME_MAX < blen s" "blen s < PATH_MAX"
    and "node_at fs (cwd env) = Some Dir"
  shows "resolve env fs s = Inl (OSError ENAMETOOLONG)"
proof -
  from assms(3) have ne: "s \<noteq> []" by auto
  with assms(1) have "take 1 s \<noteq> [slash]" by (cases s) auto
  with ne assms(4) have "namei env fs s = walk fs (cwd env) (split_sep s)"
    by (simp add: namei_walk)
  also have "\<dots> = walk fs (cwd env) [s]"
    by (simp only: split_sep_noslash [OF assms(1)])
  also from assms(5,3) have "\<dots> = Inl ENAMETOOLONG"
    by (rule walk_long)
  finally show ?thesis using assms(2) by (simp add: resolve_def)
qed

lemma long_name:
  "slash \<notin> set long_name" "fsconv long_name = None" "NAME_MAX < blen long_name"
  "blen long_name < PATH_MAX" "named_path long_name = long_name"
proof -
  show a: "slash \<notin> set long_name" by (simp add: long_name_def)
  show "fsconv long_name = None"
    by (simp add: long_name_def fsconv_def list_all_iff name_encodable_def text_encodable_def)
  show b: "NAME_MAX < blen long_name"
    by (simp add: long_name_def blen_def NAME_MAX_def utf8_len_def escaped_def sum_list_replicate)
  show "blen long_name < PATH_MAX"
    by (simp add: long_name_def blen_def PATH_MAX_def utf8_len_def escaped_def sum_list_replicate)
  from b long_not_dot [of long_name] have "long_name \<noteq> []" "long_name \<noteq> [dot]" by simp_all
  with a show "named_path long_name = long_name" by (intro named_path_plain)
qed

subsection \<open>The exceptions of the library calls\<close>

text \<open>No library call ends the process by itself: \<^verbatim>\<open>SystemExit\<close> comes from \<^verbatim>\<open>sys.exit\<close> only.\<close>

lemma py_get_Inl: "py_get x k d = Inl e \<Longrightarrow> e = AttributeError"
  by (auto simp: py_get_def split: json.splits option.splits)

lemma input_content_Inl: "input_content data = Inl e \<Longrightarrow> e = AttributeError"
  by (auto simp: input_content_def dest: py_get_Inl split: sum.splits)

lemma Path_Inl: "Path x = Inl e \<Longrightarrow> e = TypeError"
  by (auto simp: Path_def split: json.splits)

lemma Path_exists_Inl: "Path_exists env fs p \<noteq> Inl (SystemExit k)"
  using os_stat_no_exit [of env fs "str_path p" k]
  by (auto simp: Path_exists_def split: sum.splits exn.splits if_splits)

lemma Path_read_text_Inl: "Path_read_text env fs p \<noteq> Inl (SystemExit k)"
  using os_stat_no_exit [of env fs "str_path p" k]
  by (auto simp: Path_read_text_def os_read_def split: sum.splits node.splits)

lemma os_creat_Inl: "os_creat fs loc \<noteq> Inl (SystemExit k)"
  by (auto simp: os_creat_def split: option.splits node.splits)

lemma os_open_trunc_Inl: "os_open_trunc env fs s \<noteq> Inl (SystemExit k)"
  using resolve_no_exit [of env fs s k] os_creat_Inl [of fs _ k]
  by (auto simp: os_open_trunc_def split: sum.splits option.splits node.splits)

lemma os_open_excl_Inl: "os_open_excl env fs s \<noteq> Inl (SystemExit k)"
  using resolve_no_exit [of env fs s k] os_creat_Inl [of fs _ k]
  by (auto simp: os_open_excl_def split: sum.splits option.splits node.splits)

lemma Path_write_text_Inl: "Path_write_text env fs p d \<noteq> (Some (SystemExit k), fs')"
  using os_open_trunc_Inl [of env fs "str_path p" k]
  by (auto simp: Path_write_text_def split: sum.splits json.splits prod.splits)

lemma Path_unlink_Inl: "Path_unlink env fs p m \<noteq> Inl (SystemExit k)"
  using resolve_no_exit [of env fs "str_path p" k]
  by (auto simp: Path_unlink_def os_unlink_def split: sum.splits option.splits node.splits if_splits)

lemma mkstemp_inner_Inl: "mkstemp_inner env fs ns \<noteq> Inl (SystemExit k)"
  using os_open_excl_Inl [of env fs _ k]
  by (induction ns) (auto split: sum.splits if_splits)

subsection \<open>Evaluating requests and outcomes\<close>

lemma Path_str [simp]: "Path (JStr p) = Inr (parse_path p)"
  by (simp add: Path_def)

lemma finish_stop: "finish (stop e fs) = \<lparr>exit_code = exit_status (Some e), stdout = [], files = fs\<rparr>"
  by (simp add: finish_def stop_def)

lemma finish_respond:
  "finish (respond i c fs) =
     \<lparr>exit_code = 0, stdout = [JObj [(ascii ''id'', JStr i), (ascii ''content'', c)]], files = fs\<rparr>"
  by (simp add: finish_def respond_def exit_status_def)

lemma py_get_id_request [simp]: "py_get (id_request p) (ascii ''id'') JNull = Inr (JStr p)"
  by (simp add: py_get_def id_request_def ascii_def)

lemma py_get_update_request [simp]: "py_get (update_request p c) (ascii ''id'') JNull = Inr (JStr p)"
  by (simp add: py_get_def update_request_def ascii_def)

lemma input_content_update_request [simp]: "input_content (update_request p c) = Inr (JStr c)"
  by (simp add: input_content_def py_get_def update_request_def ascii_def)

lemma input_content_create_request [simp]: "input_content (create_request c) = Inr (JStr c)"
  by (simp add: input_content_def py_get_def create_request_def ascii_def)

lemma lacks_content_input: "lacks_content data \<Longrightarrow> input_content data = Inr (JStr [])"
  by (auto simp: lacks_content_def input_content_def py_get_def split: json.splits option.splits)

lemma exit_status_0: "exit_status r = 0 \<longleftrightarrow> r = None \<or> r = Some (SystemExit 0)"
  by (auto simp: exit_status_def split: option.splits exn.splits)

lemma doc_id_response [simp]: "doc_id (response i c) = Some i"
  by (simp add: doc_id_def response_def ascii_def)

lemma response_ids_single [simp]: "response_ids [response i c] = [i]"
  by (simp add: response_ids_def List.map_filter_simps)

lemma response_ids_Nil [simp]: "response_ids [] = []"
  by (simp add: response_ids_def List.map_filter_simps)

lemma held_printed [simp]:
  "response_ids [JObj [(ascii ''id'', JStr i), (ascii ''content'', c)]] = [i]"
  by (simp add: response_ids_def doc_id_def List.map_filter_simps ascii_def)

text \<open>The definitions a concrete request is evaluated with.\<close>

lemmas path_defs = named_path_def parse_path_def splitroot_def str_path_def
lemmas os_defs = ascii_def os_stat_def os_read_def os_open_trunc_def os_creat_def os_open_excl_def
  os_unlink_def resolve_def fsconv_def namei_def node_at_def
  blen_def utf8_len_def escaped_def name_encodable_def text_encodable_def NAME_MAX_def PATH_MAX_def
lemmas lib_defs = ascii_def Path_exists_def Path_read_text_def Path_write_text_def Path_unlink_def
  NamedTemporaryFile_def candidate_file_def gettempdir_def os_path_join_def
lemmas handler_defs = ascii_def main_def finish_def exit_status_def stop_def respond_def
  handle_create_def handle_read_def handle_update_def handle_delete_def input_content_def py_get_def
lemmas request_defs = ascii_def create_request_def id_request_def update_request_def response_def


subsection \<open>Read\<close>

text \<open>
  The failures of \<^verbatim>\<open>stat\<close> that \<^verbatim>\<open>Path.exists\<close> takes for "not there": a name that is
  missing or runs through a file, and a string that cannot be a path name.
\<close>

lemma Path_exists_False:
  "os_stat env fs (str_path p) = Inl e \<Longrightarrow>
   e = OSError ENOENT \<or> e = OSError ENOTDIR \<or> e = ValueError \<or> e = UnicodeEncodeError \<Longrightarrow>
   Path_exists env fs p = Inr False"
  by (auto simp: Path_exists_def)

lemma Path_exists_True: "os_stat env fs (str_path p) = Inr n \<Longrightarrow> Path_exists env fs p = Inr True"
  by (simp add: Path_exists_def)

lemma Path_exists_raises:
  "os_stat env fs (str_path p) = Inl (OSError e) \<Longrightarrow> e \<noteq> ENOENT \<Longrightarrow> e \<noteq> ENOTDIR \<Longrightarrow>
   Path_exists env fs p = Inl (OSError e)"
  by (simp add: Path_exists_def)

lemma handle_read_missing:
  "py_get data (ascii ''id'') JNull = Inr (JStr p) \<Longrightarrow> os_stat env fs (named_path p) = Inl e \<Longrightarrow>
   e = OSError ENOENT \<or> e = OSError ENOTDIR \<or> e = ValueError \<or> e = UnicodeEncodeError \<Longrightarrow>
   handle_read env data fs = stop (SystemExit 22) fs"
  by (simp add: handle_read_def named_path_def Path_exists_False)

lemma handle_read_raises:
  "py_get data (ascii ''id'') JNull = Inr (JStr p) \<Longrightarrow>
   os_stat env fs (named_path p) = Inl (OSError e) \<Longrightarrow> e \<noteq> ENOENT \<Longrightarrow> e \<noteq> ENOTDIR \<Longrightarrow>
   handle_read env data fs = stop (OSError e) fs"
  by (simp add: handle_read_def named_path_def Path_exists_raises)

lemma handle_read_file:
  "py_get data (ascii ''id'') JNull = Inr (JStr p) \<Longrightarrow> os_stat env fs (named_path p) = Inr (File c) \<Longrightarrow>
   handle_read env data fs = respond (named_path p) (JStr (universal_newlines c)) fs"
  by (simp add: handle_read_def named_path_def Path_exists_True Path_read_text_def os_read_def)

lemma handle_read_dir:
  "py_get data (ascii ''id'') JNull = Inr (JStr p) \<Longrightarrow> os_stat env fs (named_path p) = Inr Dir \<Longrightarrow>
   handle_read env data fs = stop (OSError EISDIR) fs"
  by (simp add: handle_read_def named_path_def Path_exists_True Path_read_text_def os_read_def)

lemma handle_read_fs: "fs_after (handle_read env data fs) = fs"
  by (simp add: handle_read_def stop_def respond_def split: sum.splits)

lemma handle_read_raised:
  "raised (handle_read env data fs) = Some e \<Longrightarrow> e \<noteq> SystemExit 0"
  using Path_exists_Inl [of env fs _ 0] Path_read_text_Inl [of env fs _ 0]
  by (auto simp: handle_read_def stop_def respond_def
      dest: py_get_Inl Path_Inl
      split: sum.splits if_splits)

lemma read_success_raised:
  "exit_code (main env Read (Some data) fs) = 0 \<Longrightarrow> raised (handle_read env data fs) = None"
  using handle_read_raised [of env data fs]
  by (auto simp: main_def finish_def exit_status_0)

lemma handle_read_printed:
  "py_get data (ascii ''id'') JNull = Inr (JStr p) \<Longrightarrow> raised (handle_read env data fs) = None \<Longrightarrow>
   \<exists>c. printed (handle_read env data fs) = [response (named_path p) c]"
  by (auto simp: handle_read_def stop_def respond_def response_def named_path_def
      split: sum.splits if_splits)

text \<open>
  C9. A read invocation makes no change to the filesystem: whatever stands on standard
  input (a request with or without an \<^verbatim>\<open>id\<close>, or no JSON at all) and whether the read
  succeeds or fails, the filesystem the process leaves is the one it found, at every
  location.
\<close>

theorem read_leaves_filesystem:
  "files (main env Read input_data fs) = fs"
  by (simp add: main_def finish_def handle_read_fs stop_def split: option.splits)


text \<open>
  C1. A read invocation whose \<^verbatim>\<open>id\<close> names a path that \<^verbatim>\<open>stat\<close> reports as not there (a
  name on the way is missing, \<^verbatim>\<open>ENOENT\<close>, or is a file, \<^verbatim>\<open>ENOTDIR\<close>) or that cannot be a
  path name at all (a NUL or a character without an encoding) ends with exit code 22,
  has written nothing to standard output and leaves the filesystem as it was.
\<close>

theorem read_missing_exits_22:
  assumes "py_get data (ascii ''id'') JNull = Inr (JStr p)"
    and "os_stat env fs (named_path p) = Inl e"
    and "e = OSError ENOENT \<or> e = OSError ENOTDIR \<or> e = ValueError \<or> e = UnicodeEncodeError"
  shows "main env Read (Some data) fs = \<lparr>exit_code = 22, stdout = [], files = fs\<rparr>"
  using assms by (simp add: main_def handle_read_missing finish_stop exit_status_def)

text \<open>The repository's test: \<^verbatim>\<open>{"id": "non_existent_file"}\<close> in a directory without it.\<close>

theorem read_missing_exits_22_witness:
  "py_get (id_request (ascii ''non_existent_file'')) (ascii ''id'') JNull =
     Inr (JStr (ascii ''non_existent_file'')) \<and>
   os_stat env0 fs0 (named_path (ascii ''non_existent_file'')) = Inl (OSError ENOENT) \<and>
   main env0 Read (Some (id_request (ascii ''non_existent_file''))) fs0 =
     \<lparr>exit_code = 22, stdout = [], files = fs0\<rparr>"
proof -
  have a: "py_get (id_request (ascii ''non_existent_file'')) (ascii ''id'') JNull =
      Inr (JStr (ascii ''non_existent_file''))"
    by simp
  have b: "os_stat env0 fs0 (named_path (ascii ''non_existent_file'')) = Inl (OSError ENOENT)"
    by (simp add: path_defs os_defs env0_def fs0_def)
  from read_missing_exits_22 [OF a b] a b show ?thesis by simp
qed

text \<open>
  Any other failure of \<^verbatim>\<open>stat\<close> is raised again by \<^verbatim>\<open>Path.exists\<close>, and a directory at the
  named path is not "not found" either: the read fails with exit code 1.
\<close>

lemma read_stat_raises:
  assumes "os_stat env fs (named_path p) = Inl (OSError e)" "e \<noteq> ENOENT" "e \<noteq> ENOTDIR"
  shows "main env Read (Some (id_request p)) fs = \<lparr>exit_code = 1, stdout = [], files = fs\<rparr>"
proof -
  from assms have "handle_read env (id_request p) fs = stop (OSError e) fs"
    by (intro handle_read_raises) simp_all
  then show ?thesis by (simp add: main_def finish_stop exit_status_def)
qed

lemma read_directory:
  assumes "os_stat env fs (named_path p) = Inr Dir"
  shows "main env Read (Some (id_request p)) fs = \<lparr>exit_code = 1, stdout = [], files = fs\<rparr>"
proof -
  from assms have "handle_read env (id_request p) fs = stop (OSError EISDIR) fs"
    by (intro handle_read_dir) simp_all
  then show ?thesis by (simp add: main_def finish_stop exit_status_def)
qed

text \<open>
  Nothing exists at a name of 300 letters in the working directory, and the read of it
  ends with exit code 1: the system refuses the name (\<^verbatim>\<open>ENAMETOOLONG\<close>).
\<close>

theorem read_long_name_fails:
  "node_at fs0 (cwd env0 @ [long_name]) = None \<and>
   main env0 Read (Some (id_request long_name)) fs0 = \<lparr>exit_code = 1, stdout = [], files = fs0\<rparr>"
proof -
  have d: "node_at fs0 (cwd env0) = Some Dir"
    by (simp add: node_at_def env0_def fs0_def)
  have "blen (ascii ''testfile'') \<le> NAME_MAX"
    by (simp add: ascii_def NAME_MAX_def blen_def utf8_len_def)
  with long_name(3) have l: "long_name \<noteq> ascii ''testfile''"
    by auto
  then have n: "node_at fs0 (cwd env0 @ [long_name]) = None"
    by (simp add: node_at_def env0_def fs0_def)
  from long_name(1-4) d have "resolve env0 fs0 long_name = Inl (OSError ENAMETOOLONG)"
    by (rule resolve_long)
  then have "os_stat env0 fs0 (named_path long_name) = Inl (OSError ENAMETOOLONG)"
    by (simp add: os_stat_def long_name(5))
  then have "main env0 Read (Some (id_request long_name)) fs0 =
      \<lparr>exit_code = 1, stdout = [], files = fs0\<rparr>"
    by (rule read_stat_raises) simp_all
  with n show ?thesis by simp
qed

text \<open>An \<^verbatim>\<open>id\<close> with a NUL is "not there": \<^verbatim>\<open>Path.exists\<close> catches the \<^verbatim>\<open>ValueError\<close>.\<close>

lemma read_nul_id:
  "main env0 Read (Some (id_request [97, 0, 98])) fs0 = \<lparr>exit_code = 22, stdout = [], files = fs0\<rparr>"
  by (simp add: handler_defs lib_defs os_defs path_defs request_defs Path_def env0_def fs0_def)


subsection \<open>Update\<close>

lemma write_text_file:
  "resolve env fs (str_path p) = Inr loc \<Longrightarrow> node_at fs loc = Some (File c1) \<Longrightarrow>
   list_all text_encodable c \<Longrightarrow>
   Path_write_text env fs p (JStr c) = (None, fs(loc \<mapsto> File c))"
  by (simp add: Path_write_text_def os_open_trunc_def)


text \<open>A text that cannot be encoded is refused after the file has been emptied.\<close>

lemma write_text_unencodable:
  "resolve env fs (str_path p) = Inr loc \<Longrightarrow> node_at fs loc = Some (File c1) \<Longrightarrow>
   \<not> list_all text_encodable c \<Longrightarrow>
   Path_write_text env fs p (JStr c) = (Some UnicodeEncodeError, fs(loc \<mapsto> File []))"
  by (simp add: Path_write_text_def os_open_trunc_def)


lemma os_read_written:
  assumes n: "resolve env fs s = Inr loc" and d: "node_at fs loc \<noteq> Some Dir"
  shows "os_read env (fs(loc \<mapsto> File c)) s = Inr c"
proof -
  from d have ne: "loc \<noteq> []" by (auto simp: node_at_def)
  from n d have "resolve env (fs(loc \<mapsto> File c)) s = Inr loc" by (rule resolve_upd)
  with ne show ?thesis by (simp add: os_read_def os_stat_def node_at_same)
qed



lemma handle_update_raised:
  "raised (handle_update env data fs) = Some e \<Longrightarrow> e \<noteq> SystemExit 0"
  using Path_write_text_Inl [of env fs _ _ 0]
  by (auto simp: handle_update_def stop_def respond_def
      dest: py_get_Inl Path_Inl input_content_Inl
      split: sum.splits if_splits prod.splits option.splits)

lemma update_success_raised:
  "exit_code (main env Update (Some data) fs) = 0 \<Longrightarrow> raised (handle_update env data fs) = None"
  using handle_update_raised [of env data fs]
  by (auto simp: main_def finish_def exit_status_0)

lemma handle_update_printed:
  "py_get data (ascii ''id'') JNull = Inr (JStr p) \<Longrightarrow> raised (handle_update env data fs) = None \<Longrightarrow>
   \<exists>c. printed (handle_update env data fs) = [response (named_path p) c]"
  by (auto simp: handle_update_def stop_def respond_def response_def named_path_def
      Path_write_text_def split: sum.splits if_splits json.splits prod.splits option.splits)







text \<open>
  Likewise for an \<^verbatim>\<open>id\<close> with a NUL, which is no path name (\<^verbatim>\<open>ValueError\<close>), and without the
  directory that would hold the file: exit code 1 and no file.
\<close>

lemma update_nul_id:
  "main env0 Update (Some (update_request [97, 0, 98] (ascii ''new content''))) fs0 =
     \<lparr>exit_code = 1, stdout = [], files = fs0\<rparr>"
  by (simp add: handler_defs lib_defs os_defs path_defs request_defs Path_def env0_def fs0_def)

lemma update_without_directory:
  "main env0 Update (Some (update_request (ascii ''nodir/newfile'') (ascii ''new content''))) fs0 =
     \<lparr>exit_code = 1, stdout = [], files = fs0\<rparr>"
  by (simp add: handler_defs lib_defs os_defs path_defs request_defs Path_def env0_def fs0_def)


subsection \<open>Delete\<close>

lemma os_stat_removed:
  assumes n: "resolve env fs s = Inr loc" and d: "node_at fs loc \<noteq> Some Dir"
  shows "os_stat env (fs(loc := None)) s = Inl (OSError ENOENT)"
proof -
  from d have ne: "loc \<noteq> []" by (auto simp: node_at_def)
  from n d have "resolve env (fs(loc := None)) s = Inr loc" by (rule resolve_upd)
  with ne show ?thesis by (simp add: os_stat_def node_at_same)
qed

lemma handle_delete_file:
  assumes i: "py_get data (ascii ''id'') JNull = Inr (JStr p)"
    and n: "resolve env fs (named_path p) = Inr loc"
    and f: "node_at fs loc = Some (File c)"
  shows "handle_delete env data fs = \<lparr>raised = None, printed = [], fs_after = fs(loc := None)\<rparr>"
  using assms by (simp add: handle_delete_def Path_unlink_def os_unlink_def named_path_def)

lemma handle_delete_missing:
  assumes i: "py_get data (ascii ''id'') JNull = Inr (JStr p)"
    and n: "os_stat env fs (named_path p) = Inl (OSError ENOENT)"
  shows "handle_delete env data fs = \<lparr>raised = None, printed = [], fs_after = fs\<rparr>"
  using assms
  by (auto simp: handle_delete_def Path_unlink_def os_unlink_def os_stat_def named_path_def
      split: sum.splits option.splits)

lemma handle_delete_printed: "printed (handle_delete env data fs) = []"
  by (simp add: handle_delete_def stop_def split: sum.splits)

lemma delete_outcome:
  assumes i: "py_get data (ascii ''id'') JNull = Inr (JStr p)"
    and s: "os_stat env fs (named_path p) = Inr (File c) \<or>
            os_stat env fs (named_path p) = Inl (OSError ENOENT)"
  shows "exit_code (main env Delete (Some data) fs) = 0 \<and>
         os_stat env (files (main env Delete (Some data) fs)) (named_path p) = Inl (OSError ENOENT)"
  using s
proof
  assume "os_stat env fs (named_path p) = Inr (File c)"
  then obtain loc where n: "resolve env fs (named_path p) = Inr loc"
    and f: "node_at fs loc = Some (File c)"
    by (auto simp: os_stat_def split: sum.splits option.splits)
  from i n f
  have "handle_delete env data fs = \<lparr>raised = None, printed = [], fs_after = fs(loc := None)\<rparr>"
    by (rule handle_delete_file)
  moreover from n f have "os_stat env (fs(loc := None)) (named_path p) = Inl (OSError ENOENT)"
    by (intro os_stat_removed) simp_all
  ultimately show ?thesis by (simp add: main_def finish_def exit_status_def)
next
  assume e: "os_stat env fs (named_path p) = Inl (OSError ENOENT)"
  with i have "handle_delete env data fs = \<lparr>raised = None, printed = [], fs_after = fs\<rparr>"
    by (rule handle_delete_missing)
  with e show ?thesis by (simp add: main_def finish_def exit_status_def)
qed

text \<open>
  C4, as the code has it. The specification promises exit code 0 for every path. The
  handler calls \<^verbatim>\<open>unlink(missing_ok=True)\<close>, which forgives a missing file and nothing
  else: for a path that names a regular file, or that the system reports as missing
  (\<^verbatim>\<open>ENOENT\<close>: the last name or a directory on the way is not there), a delete invocation
  ends with exit code 0, writes nothing to standard output, and nothing is at the path
  afterwards.
\<close>

theorem delete_file_or_missing:
  assumes "py_get data (ascii ''id'') JNull = Inr (JStr p)"
    and "os_stat env fs (named_path p) = Inr (File c) \<or>
         os_stat env fs (named_path p) = Inl (OSError ENOENT)"
  shows "exit_code (main env Delete (Some data) fs) = 0 \<and>
         stdout (main env Delete (Some data) fs) = [] \<and>
         os_stat env (files (main env Delete (Some data) fs)) (named_path p) = Inl (OSError ENOENT)"
  using delete_outcome [OF assms] by (simp add: main_def finish_def handle_delete_printed)

text \<open>
  The repository's tests: \<^verbatim>\<open>testfile\<close>, which is there before the delete and gone after
  it, and \<^verbatim>\<open>{"id": "any"}\<close> in a directory without it.
\<close>

theorem delete_file_or_missing_witness:
  "py_get (id_request (ascii ''/home/testfile'')) (ascii ''id'') JNull =
     Inr (JStr (ascii ''/home/testfile'')) \<and>
   os_stat env0 fs0 (named_path (ascii ''/home/testfile'')) = Inr (File (ascii ''old content'')) \<and>
   exit_code (main env0 Delete (Some (id_request (ascii ''/home/testfile''))) fs0) = 0 \<and>
   stdout (main env0 Delete (Some (id_request (ascii ''/home/testfile''))) fs0) = [] \<and>
   os_stat env0 (files (main env0 Delete (Some (id_request (ascii ''/home/testfile''))) fs0))
     (named_path (ascii ''/home/testfile'')) = Inl (OSError ENOENT) \<and>
   py_get (id_request (ascii ''any'')) (ascii ''id'') JNull = Inr (JStr (ascii ''any'')) \<and>
   os_stat env0 fs0 (named_path (ascii ''any'')) = Inl (OSError ENOENT) \<and>
   exit_code (main env0 Delete (Some (id_request (ascii ''any''))) fs0) = 0 \<and>
   stdout (main env0 Delete (Some (id_request (ascii ''any''))) fs0) = [] \<and>
   os_stat env0 (files (main env0 Delete (Some (id_request (ascii ''any''))) fs0))
     (named_path (ascii ''any'')) = Inl (OSError ENOENT)"
proof -
  have a: "py_get (id_request (ascii ''/home/testfile'')) (ascii ''id'') JNull =
      Inr (JStr (ascii ''/home/testfile''))"
    by simp
  have b: "os_stat env0 fs0 (named_path (ascii ''/home/testfile'')) =
      Inr (File (ascii ''old content''))"
    by (simp add: path_defs os_defs env0_def fs0_def)
  have a': "py_get (id_request (ascii ''any'')) (ascii ''id'') JNull = Inr (JStr (ascii ''any''))"
    by simp
  have b': "os_stat env0 fs0 (named_path (ascii ''any'')) = Inl (OSError ENOENT)"
    by (simp add: path_defs os_defs env0_def fs0_def)
  from delete_file_or_missing [OF a disjI1, OF b] delete_file_or_missing [OF a' disjI2, OF b']
    a b a' b'
  show ?thesis by simp
qed

text \<open>
  The promise for every path fails at the root directory, which is there in every
  filesystem: \<^verbatim>\<open>unlink\<close> refuses a directory, the \<^verbatim>\<open>IsADirectoryError\<close> is not caught,
  and the process ends with exit code 1.
\<close>

theorem delete_root_fails:
  "exit_code (main env0 Delete (Some (id_request [slash])) fs0) = 1"
  by (simp add: handler_defs lib_defs os_defs path_defs request_defs Path_def)

text \<open>
  So it is for every directory, for every path that runs through a regular file, for
  a name that is too long and for an \<^verbatim>\<open>id\<close> that is no path name: whatever \<^verbatim>\<open>unlink\<close>
  raises other than \<^verbatim>\<open>FileNotFoundError\<close> ends the process with exit code 1.
\<close>

lemma delete_directory:
  assumes "os_stat env fs (named_path p) = Inr Dir \<or>
           os_stat env fs (named_path p) = Inl (OSError ENOTDIR)"
  shows "main env Delete (Some (id_request p)) fs = \<lparr>exit_code = 1, stdout = [], files = fs\<rparr>"
  using assms
  by (auto simp: main_def finish_def exit_status_def handle_delete_def stop_def
      Path_unlink_def os_unlink_def os_stat_def named_path_def
      split: sum.splits option.splits node.splits)

lemma delete_unresolved:
  assumes "resolve env fs (named_path p) = Inl e" "e \<noteq> OSError ENOENT"
  shows "main env Delete (Some (id_request p)) fs =
           \<lparr>exit_code = exit_status (Some e), stdout = [], files = fs\<rparr>"
  using assms
  by (simp add: main_def handle_delete_def Path_unlink_def os_unlink_def named_path_def finish_stop)

lemma delete_long_name:
  "main env0 Delete (Some (id_request long_name)) fs0 = \<lparr>exit_code = 1, stdout = [], files = fs0\<rparr>"
proof -
  have "node_at fs0 (cwd env0) = Some Dir"
    by (simp add: node_at_def env0_def fs0_def)
  with long_name(1-4) have "resolve env0 fs0 long_name = Inl (OSError ENAMETOOLONG)"
    by (rule resolve_long)
  then have "resolve env0 fs0 (named_path long_name) = Inl (OSError ENAMETOOLONG)"
    by (simp add: long_name(5))
  from delete_unresolved [OF this] show ?thesis by (simp add: exit_status_def)
qed

lemma delete_nul_id:
  "main env0 Delete (Some (id_request [97, 0, 98])) fs0 = \<lparr>exit_code = 1, stdout = [], files = fs0\<rparr>"
  by (simp add: handler_defs lib_defs os_defs path_defs request_defs Path_def env0_def fs0_def)

subsection \<open>The \<^verbatim>\<open>id\<close> of a response\<close>

text \<open>
  C7, as the code has it. The specification promises the \<^verbatim>\<open>id\<close> of the request, unchanged. The
  handlers print \<^verbatim>\<open>str(Path(id))\<close>: for every read or update invocation that ends with
  exit code 0, the \<^verbatim>\<open>id\<close> of the response is the path the request names, that is the
  \<^verbatim>\<open>id\<close> without its empty and \<^verbatim>\<open>'.'\<close> components and its trailing slashes. Naming is
  idempotent, so an \<^verbatim>\<open>id\<close> that a response has carried comes back unchanged.
\<close>

theorem response_id_is_named_path:
  assumes i: "py_get data (ascii ''id'') JNull = Inr (JStr p)"
    and a: "act = Read \<or> act = Update"
    and ok: "exit_code (main env act (Some data) fs) = 0"
  shows "(\<exists>c. stdout (main env act (Some data) fs) = [response (named_path p) c]) \<and>
         named_path (named_path p) = named_path p"
proof -
  from a have "\<exists>c. stdout (main env act (Some data) fs) = [response (named_path p) c]"
  proof
    assume r: "act = Read"
    with ok have "raised (handle_read env data fs) = None"
      by (simp add: read_success_raised)
    with i have "\<exists>c. printed (handle_read env data fs) = [response (named_path p) c]"
      by (rule handle_read_printed)
    with r show ?thesis by (simp add: main_def finish_def)
  next
    assume u: "act = Update"
    with ok have "raised (handle_update env data fs) = None"
      by (simp add: update_success_raised)
    with i have "\<exists>c. printed (handle_update env data fs) = [response (named_path p) c]"
      by (rule handle_update_printed)
    with u show ?thesis by (simp add: main_def finish_def)
  qed
  then show ?thesis by (simp add: named_path_idem)
qed

theorem response_id_is_named_path_witness:
  "py_get (id_request (ascii ''/home/./testfile'')) (ascii ''id'') JNull =
     Inr (JStr (ascii ''/home/./testfile'')) \<and>
   (Read = Read \<or> Read = Update) \<and>
   exit_code (main env0 Read (Some (id_request (ascii ''/home/./testfile''))) fs0) = 0 \<and>
   (\<exists>c. stdout (main env0 Read (Some (id_request (ascii ''/home/./testfile''))) fs0) =
      [response (named_path (ascii ''/home/./testfile'')) c]) \<and>
   named_path (named_path (ascii ''/home/./testfile'')) = named_path (ascii ''/home/./testfile'')"
proof -
  have a: "py_get (id_request (ascii ''/home/./testfile'')) (ascii ''id'') JNull =
      Inr (JStr (ascii ''/home/./testfile''))"
    by simp
  have b: "Read = Read \<or> Read = Update"
    by simp
  have c: "exit_code (main env0 Read (Some (id_request (ascii ''/home/./testfile''))) fs0) = 0"
    by (simp add: handler_defs lib_defs os_defs path_defs request_defs Path_def env0_def fs0_def)
  from response_id_is_named_path [OF a b c] a c show ?thesis by simp
qed

text \<open>
  The unchanged echo fails for a request whose \<^verbatim>\<open>id\<close> is \<^verbatim>\<open>./testfile\<close>: the read
  succeeds and the response carries the \<^verbatim>\<open>id\<close> \<^verbatim>\<open>testfile\<close>.
\<close>

theorem read_dot_testfile:
  "exit_code (main env0 Read (Some (id_request (ascii ''./testfile''))) fs0) = 0 \<and>
   response_ids (stdout (main env0 Read (Some (id_request (ascii ''./testfile''))) fs0)) =
     [ascii ''testfile''] \<and>
   response_ids (stdout (main env0 Read (Some (id_request (ascii ''./testfile''))) fs0)) \<noteq>
     [ascii ''./testfile'']"
  by (simp add: handler_defs lib_defs os_defs path_defs request_defs Path_def env0_def fs0_def
      response_ids_def doc_id_def List.map_filter_simps)

subsection \<open>Create\<close>

text \<open>
  An allocation that succeeds has found a candidate whose place was empty and has put
  an empty file there; the \<^verbatim>\<open>write_text\<close> that follows goes to the same place and fails
  only on a text that cannot be encoded.
\<close>

lemma os_open_excl_Inr:
  assumes "os_open_excl env fs s = Inr (loc, fs')"
  shows "resolve env fs s = Inr loc \<and> node_at fs loc = None \<and> fs' = fs(loc \<mapsto> File [])"
  using assms
  by (auto simp: os_open_excl_def os_creat_def split: sum.splits option.splits node.splits)

lemma mkstemp_inner_Inr:
  "mkstemp_inner env fs ns = Inr (name, fs') \<Longrightarrow>
   \<exists>n loc. n \<in> set ns \<and> name = candidate_file env n \<and> resolve env fs name = Inr loc \<and>
     node_at fs loc = None \<and> fs' = fs(loc \<mapsto> File [])"
proof (induction ns)
  case Nil
  then show ?case by simp
next
  case (Cons n ns)
  show ?case
  proof (cases "os_open_excl env fs (candidate_file env n)")
    case (Inl e)
    with Cons show ?thesis by (auto split: if_splits)
  next
    case (Inr r)
    obtain loc fs1 where r: "r = (loc, fs1)" by (cases r)
    with Inr Cons.prems have e: "name = candidate_file env n" "fs' = fs1" by simp_all
    from os_open_excl_Inr [OF Inr [unfolded r]] have
      "resolve env fs (candidate_file env n) = Inr loc" "node_at fs loc = None"
      "fs1 = fs(loc \<mapsto> File [])"
      by simp_all
    with e have "n \<in> set (n # ns) \<and> name = candidate_file env n \<and>
        resolve env fs name = Inr loc \<and> node_at fs loc = None \<and> fs' = fs(loc \<mapsto> File [])"
      by simp
    then show ?thesis by blast
  qed
qed

lemma write_text_None:
  "Path_write_text env fs p d = (None, fs') \<Longrightarrow> \<exists>c. d = JStr c \<and> list_all text_encodable c"
  by (cases d) (auto simp: Path_write_text_def split: sum.splits prod.splits if_splits)

lemma write_after_alloc:
  assumes n: "resolve env fs name = Inr loc" and a: "node_at fs loc = None"
    and e: "list_all text_encodable c"
  shows "Path_write_text env (fs(loc \<mapsto> File [])) (parse_path name) (JStr c) =
           (None, fs(loc \<mapsto> File c))"
proof -
  from a have ne: "loc \<noteq> []" by (auto simp: node_at_def)
  from n have "resolve env fs (named_path name) = Inr loc" by (rule resolve_named)
  with a have "resolve env (fs(loc \<mapsto> File [])) (named_path name) = Inr loc"
    by (intro resolve_upd) simp_all
  moreover from ne have "node_at (fs(loc \<mapsto> File [])) loc = Some (File [])"
    by (simp add: node_at_same)
  ultimately have "Path_write_text env (fs(loc \<mapsto> File [])) (parse_path name) (JStr c) =
      (None, (fs(loc \<mapsto> File []))(loc \<mapsto> File c))"
    using e by (intro write_text_file) (simp_all add: named_path_def)
  then show ?thesis by simp
qed

text \<open>What a create that got its temporary file does.\<close>

lemma handle_create_allocated:
  assumes c: "input_content data = Inr (JStr c)"
    and e: "list_all text_encodable c"
    and t: "NamedTemporaryFile env fs = Inr (name, fs1)"
  shows "\<exists>loc. resolve env fs name = Inr loc \<and> node_at fs loc = None \<and>
           handle_create env data fs = respond (named_path name) (JStr c) (fs(loc \<mapsto> File c))"
proof -
  from t obtain loc where n: "resolve env fs name = Inr loc" and a: "node_at fs loc = None"
    and f: "fs1 = fs(loc \<mapsto> File [])"
    by (auto simp: NamedTemporaryFile_def dest: mkstemp_inner_Inr)
  from n a e
  have "Path_write_text env fs1 (parse_path name) (JStr c) = (None, fs(loc \<mapsto> File c))"
    unfolding f by (rule write_after_alloc)
  with c t have "handle_create env data fs = respond (named_path name) (JStr c) (fs(loc \<mapsto> File c))"
    by (simp add: handle_create_def named_path_def)
  with n a show ?thesis by blast
qed

text \<open>What a create that ended without an exception has done.\<close>

lemma handle_create_success:
  assumes "raised (handle_create env data fs) = None"
  shows "\<exists>name loc c. name \<in> candidate_file env ` set (names env) \<and>
           resolve env fs name = Inr loc \<and> node_at fs loc = None \<and>
           handle_create env data fs = respond (named_path name) (JStr c) (fs(loc \<mapsto> File c))"
proof -
  from assms obtain content name fs1 fs2 where c: "input_content data = Inr content"
    and t: "NamedTemporaryFile env fs = Inr (name, fs1)"
    and w: "Path_write_text env fs1 (parse_path name) content = (None, fs2)"
    by (auto simp: handle_create_def stop_def split: sum.splits prod.splits option.splits)
  from write_text_None [OF w] obtain c where "content = JStr c" and e: "list_all text_encodable c"
    by blast
  with c have "input_content data = Inr (JStr c)" by simp
  from handle_create_allocated [OF this e t] obtain loc where
    "resolve env fs name = Inr loc" "node_at fs loc = None"
    "handle_create env data fs = respond (named_path name) (JStr c) (fs(loc \<mapsto> File c))"
    by blast
  moreover from t have "name \<in> candidate_file env ` set (names env)"
    by (auto simp: NamedTemporaryFile_def dest: mkstemp_inner_Inr)
  ultimately show ?thesis by blast
qed

lemma handle_create_raised:
  "raised (handle_create env data fs) = Some e \<Longrightarrow> e \<noteq> SystemExit 0"
  using Path_write_text_Inl [of env _ _ _ 0] mkstemp_inner_Inl [of env fs _ 0]
  by (auto simp: handle_create_def stop_def respond_def NamedTemporaryFile_def
      dest: input_content_Inl
      split: sum.splits if_splits prod.splits option.splits)

lemma create_success_raised:
  "exit_code (main env Create (Some data) fs) = 0 \<Longrightarrow> raised (handle_create env data fs) = None"
  using handle_create_raised [of env data fs]
  by (auto simp: main_def finish_def exit_status_0)

text \<open>
  In a temporary directory that has room the allocation succeeds: every candidate
  leads into that directory, a taken one is passed over, the first free one is
  created.
\<close>

lemma candidate_file_abs: "take 1 (candidate_file env n) = [slash]"
  by (simp add: candidate_file_def os_path_join_def gettempdir_def ascii_def)

lemma candidate_file_split:
  assumes "slash \<notin> set n"
  shows "\<exists>a. split_sep (candidate_file env n) = split_sep a @ [ascii ''tmp'' @ n] \<and>
           (split_sep (gettempdir env) = split_sep a \<or> split_sep (gettempdir env) = split_sep a @ [[]])"
proof -
  let ?g = "gettempdir env"
  let ?f = "ascii ''tmp'' @ n"
  from assms have f: "split_sep ?f = [?f]" by (intro split_sep_noslash) (simp add: ascii_def)
  have g: "?g \<noteq> []" by (simp add: gettempdir_def)
  have j: "take 1 ?f \<noteq> [slash]" by (simp add: ascii_def)
  show ?thesis
  proof (cases "last ?g = slash")
    case True
    with g have e: "?g = butlast ?g @ [slash]" by (metis append_butlast_last_id)
    from True j have "candidate_file env n = ?g @ ?f"
      by (simp add: candidate_file_def os_path_join_def)
    also have "\<dots> = butlast ?g @ slash # ?f" by (subst e) simp
    finally have "split_sep (candidate_file env n) = split_sep (butlast ?g) @ [?f]"
      by (simp only: split_sep_append f)
    moreover have "split_sep ?g = split_sep (butlast ?g) @ [[]]"
      by (subst e) (simp only: split_sep_append split_sep.simps)
    ultimately show ?thesis by blast
  next
    case False
    with g j have "candidate_file env n = ?g @ slash # ?f"
      by (simp add: candidate_file_def os_path_join_def)
    then have "split_sep (candidate_file env n) = split_sep ?g @ [?f]"
      by (simp only: split_sep_append f)
    then show ?thesis by blast
  qed
qed

lemma walk_last_empty: "walk fs cur (xs @ [[]]) = Inr D \<Longrightarrow> walk fs cur xs = Inr D"
  by (auto simp: walk_append split: sum.splits option.splits node.splits)

lemma walk_step_name:
  assumes "walk fs cur xs = Inr D" and "node_at fs D = Some Dir"
    and "blen (ascii ''tmp'' @ n) \<le> NAME_MAX"
  shows "walk fs cur (xs @ [ascii ''tmp'' @ n]) = Inr (D @ [ascii ''tmp'' @ n])"
  using assms by (simp add: walk_append) (simp add: ascii_def)

lemma fsconv_append: "fsconv (a @ b) = None \<longleftrightarrow> fsconv a = None \<and> fsconv b = None"
  by (auto simp: fsconv_None)

lemma fsconv_candidate:
  assumes "fsconv (gettempdir env) = None" "fsconv n = None"
  shows "fsconv (candidate_file env n) = None"
proof -
  have "fsconv (ascii ''tmp'') = None" "fsconv [slash] = None"
    by (simp_all add: fsconv_def ascii_def name_encodable_def text_encodable_def)
  with assms have "fsconv (gettempdir env @ ascii ''tmp'' @ n) = None"
    "fsconv (gettempdir env @ [slash] @ ascii ''tmp'' @ n) = None"
    by (simp_all only: fsconv_append)
  then show ?thesis
    by (simp add: candidate_file_def os_path_join_def ascii_def)
qed

lemma resolve_candidate:
  assumes t: "resolve env fs (gettempdir env) = Inr D" and d: "node_at fs D = Some Dir"
    and u: "usable env n"
  shows "resolve env fs (candidate_file env n) = Inr (D @ [ascii ''tmp'' @ n])"
proof -
  from u have n: "slash \<notin> set n" and f: "fsconv n = None"
    and l: "blen (ascii ''tmp'' @ n) \<le> NAME_MAX" and p: "blen (candidate_file env n) < PATH_MAX"
    by (simp_all add: usable_def)
  from candidate_file_split [OF n, of env] obtain a where
    c: "split_sep (candidate_file env n) = split_sep a @ [ascii ''tmp'' @ n]"
    and g: "split_sep (gettempdir env) = split_sep a \<or> split_sep (gettempdir env) = split_sep a @ [[]]"
    by blast
  from t have tf: "fsconv (gettempdir env) = None" and tn: "namei env fs (gettempdir env) = Inr D"
    by (simp_all add: resolve_Inr)
  from namei_Inr(3) [OF tn] have "walk fs [] (split_sep (gettempdir env)) = Inr D"
    by (simp add: gettempdir_def)
  with g have "walk fs [] (split_sep a) = Inr D"
    by (auto dest: walk_last_empty)
  then have "walk fs [] (split_sep a @ [ascii ''tmp'' @ n]) = Inr (D @ [ascii ''tmp'' @ n])"
    using d l by (rule walk_step_name)
  with c have "walk fs [] (split_sep (candidate_file env n)) = Inr (D @ [ascii ''tmp'' @ n])"
    by simp
  moreover have ne: "candidate_file env n \<noteq> []"
    using candidate_file_abs [of env n] by auto
  ultimately have "namei env fs (candidate_file env n) = Inr (D @ [ascii ''tmp'' @ n])"
    using candidate_file_abs [of env n] namei_walk [OF ne p, of env fs] by simp
  with fsconv_candidate [OF tf f] show ?thesis by (simp add: resolve_Inr)
qed

text \<open>
  Where the temporary directory is, and what \<open>free\<close> and an \<^verbatim>\<open>O_EXCL\<close> open mean for a
  usable candidate: there is nothing at its place in that directory.
\<close>

lemma room_dir:
  assumes "room k env fs ns"
  obtains D where "resolve env fs (gettempdir env) = Inr D" "node_at fs D = Some Dir"
  using assms by (auto simp: room_def os_stat_def split: sum.splits option.splits)

lemma free_iff:
  assumes "resolve env fs (gettempdir env) = Inr D" "node_at fs D = Some Dir" "usable env n"
  shows "free env fs n \<longleftrightarrow> node_at fs (D @ [ascii ''tmp'' @ n]) = None"
  using resolve_candidate [OF assms]
  by (auto simp: free_def os_stat_def split: option.splits)

lemma open_excl_candidate:
  assumes "resolve env fs (gettempdir env) = Inr D" "node_at fs D = Some Dir" "usable env n"
  shows "os_open_excl env fs (candidate_file env n) =
           (if free env fs n
            then Inr (D @ [ascii ''tmp'' @ n], fs(D @ [ascii ''tmp'' @ n] \<mapsto> File []))
            else Inl (OSError EEXIST))"
  using resolve_candidate [OF assms] assms(2) free_iff [OF assms]
  by (auto simp: os_open_excl_def os_creat_def split: option.splits)

lemma free_remdups:
  "\<not> free env fs n \<Longrightarrow>
   filter (free env fs) (remdups (n # ns)) = filter (free env fs) (remdups ns)"
  by simp

lemma room_list_ex: "room (Suc k) env fs ns \<Longrightarrow> list_ex (free env fs) ns"
proof -
  assume "room (Suc k) env fs ns"
  then have "filter (free env fs) (remdups ns) \<noteq> []" by (auto simp: room_def)
  then obtain n where "n \<in> set (filter (free env fs) (remdups ns))"
    by (cases "filter (free env fs) (remdups ns)") auto
  then show ?thesis by (auto simp: list_ex_iff)
qed

lemma mkstemp_inner_succeeds:
  assumes t: "resolve env fs (gettempdir env) = Inr D" and d: "node_at fs D = Some Dir"
  shows "list_all (usable env) ns \<Longrightarrow> list_ex (free env fs) ns \<Longrightarrow>
         \<exists>name fs1. mkstemp_inner env fs ns = Inr (name, fs1)"
proof (induction ns)
  case Nil
  then show ?case by simp
next
  case (Cons n ns)
  from Cons.prems(1) have n: "usable env n" by simp
  note o = open_excl_candidate [OF t d n]
  show ?case
  proof (cases "free env fs n")
    case True
    with o show ?thesis by simp
  next
    case False
    with Cons.prems have "\<exists>name fs1. mkstemp_inner env fs ns = Inr (name, fs1)"
      by (intro Cons.IH) simp_all
    with o False show ?thesis by simp
  qed
qed

lemma can_allocate_succeeds:
  assumes "roomy (Suc k) env fs"
  shows "\<exists>name fs1. NamedTemporaryFile env fs = Inr (name, fs1)"
proof -
  from assms have r: "room (Suc k) env fs (names env)" by (simp add: roomy_def)
  from r obtain D where "resolve env fs (gettempdir env) = Inr D" "node_at fs D = Some Dir"
    by (rule room_dir)
  then show ?thesis
    unfolding NamedTemporaryFile_def using r room_list_ex [OF r]
    by (intro mkstemp_inner_succeeds) (simp_all add: room_def)
qed

text \<open>What a create that ended with exit code 0 has done.\<close>

lemma create_success:
  assumes "exit_code (main env Create input_data fs) = 0"
  shows "\<exists>i loc c. take 1 i = [slash] \<and> named_path i = i \<and> resolve env fs i = Inr loc \<and>
           node_at fs loc = None \<and>
           main env Create input_data fs =
             \<lparr>exit_code = 0, stdout = [response i c], files = fs(loc \<mapsto> File c)\<rparr>"
proof -
  from assms obtain data where d: "input_data = Some data"
    by (cases input_data) (auto simp: main_def finish_stop exit_status_def)
  with assms have "raised (handle_create env data fs) = None"
    by (simp add: create_success_raised)
  from handle_create_success [OF this] obtain name loc c where
    m: "name \<in> candidate_file env ` set (names env)"
    and n: "resolve env fs name = Inr loc" and a: "node_at fs loc = None"
    and h: "handle_create env data fs = respond (named_path name) (JStr c) (fs(loc \<mapsto> File c))"
    by blast
  from m have "take 1 name = [slash]" using candidate_file_abs by auto
  then have "take 1 (named_path name) = [slash]" by (rule named_path_abs)
  moreover have "named_path (named_path name) = named_path name" by (rule named_path_idem)
  moreover from n have "resolve env fs (named_path name) = Inr loc" by (rule resolve_named)
  moreover from h d have "main env Create input_data fs =
      \<lparr>exit_code = 0, stdout = [response (named_path name) c], files = fs(loc \<mapsto> File c)\<rparr>"
    by (simp add: main_def finish_respond response_def)
  ultimately show ?thesis using a by blast
qed

text \<open>A create in a temporary directory that has room succeeds.\<close>

lemma create_allocates:
  assumes a: "roomy (Suc k) env fs" and c: "input_content data = Inr (JStr c)"
    and e: "list_all text_encodable c"
  shows "\<exists>i loc. take 1 i = [slash] \<and> named_path i = i \<and> resolve env fs i = Inr loc \<and>
           node_at fs loc = None \<and>
           main env Create (Some data) fs =
             \<lparr>exit_code = 0, stdout = [response i c], files = fs(loc \<mapsto> File c)\<rparr>"
proof -
  from can_allocate_succeeds [OF a] obtain name fs1 where
    t: "NamedTemporaryFile env fs = Inr (name, fs1)" by blast
  from handle_create_allocated [OF c e t] obtain loc where
    "handle_create env data fs = respond (named_path name) (JStr c) (fs(loc \<mapsto> File c))"
    by blast
  then have m: "main env Create (Some data) fs =
      \<lparr>exit_code = 0, stdout = [response (named_path name) c], files = fs(loc \<mapsto> File c)\<rparr>"
    by (simp add: main_def finish_respond response_def)
  then have "exit_code (main env Create (Some data) fs) = 0" by simp
  from create_success [OF this] obtain i l c' where
    i: "take 1 i = [slash]" "named_path i = i" "resolve env fs i = Inr l" "node_at fs l = None"
    and m': "main env Create (Some data) fs =
      \<lparr>exit_code = 0, stdout = [response i c'], files = fs(l \<mapsto> File c')\<rparr>"
    by blast
  from m m' have "response i c' = response (named_path name) c"
    by simp
  then have "c' = c" by (simp add: response_def)
  with i m' show ?thesis by blast
qed

text \<open>Reading what a create has written, from any working directory.\<close>

lemma read_created:
  assumes i: "take 1 i = [slash]" "named_path i = i" "resolve env fs i = Inr loc"
    "node_at fs loc = None"
  shows "main env' Read (Some (id_request i)) (fs(loc \<mapsto> File c)) =
           \<lparr>exit_code = 0, stdout = [response i (universal_newlines c)], files = fs(loc \<mapsto> File c)\<rparr>"
proof -
  from i have "os_read env (fs(loc \<mapsto> File c)) i = Inr c"
    by (intro os_read_written) simp_all
  then have "os_stat env (fs(loc \<mapsto> File c)) i = Inr (File c)"
    by (auto simp: os_read_def split: sum.splits node.splits)
  with i have "os_stat env' (fs(loc \<mapsto> File c)) (named_path i) = Inr (File c)"
    by (simp add: os_stat_abs [of i env' _ env])
  then have "handle_read env' (id_request i) (fs(loc \<mapsto> File c)) =
      respond (named_path i) (JStr (universal_newlines c)) (fs(loc \<mapsto> File c))"
    by (intro handle_read_file) simp_all
  with i show ?thesis by (simp add: main_def finish_respond response_def)
qed


text \<open>
  C8. A create invocation whose body is an object without \<^verbatim>\<open>input.content\<close> (no \<^verbatim>\<open>input\<close>
  member at all, or an \<^verbatim>\<open>input\<close> object without \<^verbatim>\<open>content\<close>), run where the temporary
  directory can take a file, ends with exit code 0; the \<^verbatim>\<open>content\<close> of its response is
  the empty string and the file at the \<^verbatim>\<open>id\<close> of the response holds the empty string.
\<close>

theorem create_without_content:
  assumes "lacks_content data" and "can_allocate env fs"
  shows "\<exists>i. exit_code (main env Create (Some data) fs) = 0 \<and>
           stdout (main env Create (Some data) fs) = [response i []] \<and>
           os_read env (files (main env Create (Some data) fs)) i = Inr []"
proof -
  from assms(1) have c: "input_content data = Inr (JStr [])" by (rule lacks_content_input)
  from assms(2) have "roomy (Suc 0) env fs" by (simp add: can_allocate_def)
  from create_allocates [OF this c] obtain i loc where
    i: "resolve env fs i = Inr loc" "node_at fs loc = None"
    and m: "main env Create (Some data) fs =
      \<lparr>exit_code = 0, stdout = [response i []], files = fs(loc \<mapsto> File [])\<rparr>"
    by auto
  from i have "os_read env (fs(loc \<mapsto> File [])) i = Inr []"
    by (intro os_read_written) simp_all
  with m show ?thesis by (intro exI [of _ i]) simp
qed

text \<open>An empty request body on the sample system: the new file is \<^verbatim>\<open>/tmp/tmpe67t2ada\<close>.\<close>

lemma can_allocate0: "can_allocate env0 fs0"
  by (simp add: can_allocate_def roomy_def room_def usable_def free_def lib_defs os_defs
      env0_def fs0_def)

theorem create_without_content_witness:
  "lacks_content (JObj []) \<and> can_allocate env0 fs0 \<and>
   (\<exists>i. exit_code (main env0 Create (Some (JObj [])) fs0) = 0 \<and>
      stdout (main env0 Create (Some (JObj [])) fs0) = [response i []] \<and>
      os_read env0 (files (main env0 Create (Some (JObj [])) fs0)) i = Inr []) \<and>
   stdout (main env0 Create (Some (JObj [])) fs0) = [response (ascii ''/tmp/tmpe67t2ada'') []]"
proof -
  have a: "lacks_content (JObj [])"
    by (simp add: lacks_content_def)
  have b: "can_allocate env0 fs0"
    by (rule can_allocate0)
  have c: "stdout (main env0 Create (Some (JObj [])) fs0) = [response (ascii ''/tmp/tmpe67t2ada'') []]"
    by (simp add: handler_defs lib_defs os_defs path_defs request_defs env0_def fs0_def)
  from create_without_content [OF a b] a b c show ?thesis by simp
qed

text \<open>
  The body \<^verbatim>\<open>{"input": null}\<close> has no \<^verbatim>\<open>input.content\<close> either, but its \<^verbatim>\<open>input\<close> is there
  and is no object: \<^verbatim>\<open>data.get("input", {})\<close> is \<^verbatim>\<open>None\<close>, which has no \<^verbatim>\<open>get\<close>. The create
  ends with exit code 1, prints nothing and creates nothing.
\<close>

theorem create_null_input_fails:
  "main env0 Create (Some (JObj [(ascii ''input'', JNull)])) fs0 =
     \<lparr>exit_code = 1, stdout = [], files = fs0\<rparr>"
  by (simp add: handler_defs)

text \<open>
  C5. For an \<^verbatim>\<open>id\<close> that a create invocation with exit code 0 has printed: a delete
  invocation with that \<^verbatim>\<open>id\<close> on the filesystem the create left ends with exit code 0
  and no output, and a read invocation with the same \<^verbatim>\<open>id\<close> on the filesystem the delete
  left ends with exit code 22 and no output. The three processes may differ in their
  working directories.
\<close>

theorem create_delete_read:
  assumes r1: "r1 = main env Create input_data fs"
    and r2: "r2 = main env' Delete (Some (id_request i)) (files r1)"
    and r3: "r3 = main env'' Read (Some (id_request i)) (files r2)"
    and ok: "exit_code r1 = 0"
    and i: "i \<in> set (response_ids (stdout r1))"
  shows "exit_code r2 = 0 \<and> stdout r2 = [] \<and> exit_code r3 = 22 \<and> stdout r3 = []"
proof -
  from ok r1 have "exit_code (main env Create input_data fs) = 0" by simp
  from create_success [OF this] obtain j loc c where
    j: "take 1 j = [slash]" "named_path j = j" "resolve env fs j = Inr loc" "node_at fs loc = None"
    and m: "r1 = \<lparr>exit_code = 0, stdout = [response j c], files = fs(loc \<mapsto> File c)\<rparr>"
    unfolding r1 by blast
  from i m have ij: "i = j" by simp
  let ?fs2 = "fs(loc \<mapsto> File c)"
  from j have "os_read env ?fs2 j = Inr c"
    by (intro os_read_written) simp_all
  then have "os_stat env ?fs2 j = Inr (File c)"
    by (auto simp: os_read_def split: sum.splits node.splits)
  with j have s2: "os_stat env' ?fs2 (named_path i) = Inr (File c)"
    by (simp add: ij os_stat_abs [of j env' _ env])
  have p: "py_get (id_request i) (ascii ''id'') JNull = Inr (JStr i)" by simp
  from delete_outcome [OF p, of env' ?fs2 c] s2 m r2
  have d: "exit_code r2 = 0"
    and g: "os_stat env' (files r2) (named_path i) = Inl (OSError ENOENT)"
    by simp_all
  from j have "os_stat env'' (files r2) (named_path i) = Inl (OSError ENOENT)"
    using g by (simp add: ij os_stat_abs [of j env'' _ env'])
  with p have "handle_read env'' (id_request i) (files r2) = stop (SystemExit 22) (files r2)"
    by (rule handle_read_missing) simp
  then have "exit_code r3 = 22 \<and> stdout r3 = []"
    unfolding r3 by (simp add: main_def finish_stop exit_status_def)
  moreover have "stdout r2 = []"
    unfolding r2 by (simp add: main_def finish_def handle_delete_printed)
  ultimately show ?thesis using d by simp
qed

lemma create0:
  "list_all text_encodable c \<Longrightarrow>
   main env0 Create (Some (create_request c)) fs0 =
     \<lparr>exit_code = 0, stdout = [response (ascii ''/tmp/tmpe67t2ada'') c],
      files = fs0([ascii ''tmp'', ascii ''tmpe67t2ada''] \<mapsto> File c)\<rparr>"
  by (simp add: handler_defs lib_defs os_defs path_defs request_defs env0_def fs0_def)

theorem create_delete_read_witness:
  "exit_code (main env0 Create (Some (create_request (ascii ''test content''))) fs0) = 0 \<and>
   ascii ''/tmp/tmpe67t2ada'' \<in>
     set (response_ids (stdout (main env0 Create (Some (create_request (ascii ''test content''))) fs0))) \<and>
   exit_code (main env0 Delete (Some (id_request (ascii ''/tmp/tmpe67t2ada'')))
     (files (main env0 Create (Some (create_request (ascii ''test content''))) fs0))) = 0 \<and>
   stdout (main env0 Delete (Some (id_request (ascii ''/tmp/tmpe67t2ada'')))
     (files (main env0 Create (Some (create_request (ascii ''test content''))) fs0))) = [] \<and>
   exit_code (main env0 Read (Some (id_request (ascii ''/tmp/tmpe67t2ada'')))
     (files (main env0 Delete (Some (id_request (ascii ''/tmp/tmpe67t2ada'')))
       (files (main env0 Create (Some (create_request (ascii ''test content''))) fs0))))) = 22 \<and>
   stdout (main env0 Read (Some (id_request (ascii ''/tmp/tmpe67t2ada'')))
     (files (main env0 Delete (Some (id_request (ascii ''/tmp/tmpe67t2ada'')))
       (files (main env0 Create (Some (create_request (ascii ''test content''))) fs0))))) = []"
proof -
  let ?r1 = "main env0 Create (Some (create_request (ascii ''test content''))) fs0"
  have e: "list_all text_encodable (ascii ''test content'')"
    by (simp add: ascii_def text_encodable_def)
  have a: "exit_code ?r1 = 0"
    by (simp add: create0 [OF e])
  have b: "ascii ''/tmp/tmpe67t2ada'' \<in> set (response_ids (stdout ?r1))"
    by (simp add: create0 [OF e])
  from create_delete_read [OF refl refl refl a b, of env0 env0] a b show ?thesis by simp
qed

text \<open>
  Create, then read. Where the temporary directory can take a file and the content can
  be encoded, create ends with exit code 0 and its response carries \<open>c\<close>, which is what
  the file holds. A read of the returned \<^verbatim>\<open>id\<close> succeeds and gives back the content with
  every \<^verbatim>\<open>'\r\n'\<close> and every \<^verbatim>\<open>'\r'\<close> turned into \<^verbatim>\<open>'\n'\<close>, because \<^verbatim>\<open>read_text\<close> opens the
  file in text mode: it gives back \<open>c\<close> itself if \<open>c\<close> has no carriage return.
\<close>

lemma create_then_read:
  assumes "can_allocate env fs" and "list_all text_encodable c"
  shows "\<exists>i. exit_code (main env Create (Some (create_request c)) fs) = 0 \<and>
           stdout (main env Create (Some (create_request c)) fs) = [response i c] \<and>
           main env' Read (Some (id_request i)) (files (main env Create (Some (create_request c)) fs)) =
             \<lparr>exit_code = 0, stdout = [response i (universal_newlines c)],
              files = files (main env Create (Some (create_request c)) fs)\<rparr>"
proof -
  from assms(1) have "roomy (Suc 0) env fs" by (simp add: can_allocate_def)
  from create_allocates [OF this _ assms(2), of "create_request c"] obtain i loc where
    i: "take 1 i = [slash]" "named_path i = i" "resolve env fs i = Inr loc" "node_at fs loc = None"
    and m: "main env Create (Some (create_request c)) fs =
      \<lparr>exit_code = 0, stdout = [response i c], files = fs(loc \<mapsto> File c)\<rparr>"
    by auto
  from read_created [OF i, of env' c] m show ?thesis by (intro exI [of _ i]) simp
qed

lemma universal_newlines_id: "cr \<notin> set c \<Longrightarrow> universal_newlines c = c"
  by (induction c rule: universal_newlines.induct) auto

lemma universal_newlines_no_cr: "cr \<notin> set (universal_newlines c)"
  by (induction c rule: universal_newlines.induct) auto

lemma universal_newlines_changes: "cr \<in> set c \<Longrightarrow> universal_newlines c \<noteq> c"
  using universal_newlines_no_cr [of c] by auto

lemma create_then_read_same:
  assumes "can_allocate env fs" and "list_all text_encodable c" and "cr \<notin> set c"
  shows "\<exists>i. exit_code (main env Create (Some (create_request c)) fs) = 0 \<and>
           stdout (main env Create (Some (create_request c)) fs) = [response i c] \<and>
           main env' Read (Some (id_request i)) (files (main env Create (Some (create_request c)) fs)) =
             \<lparr>exit_code = 0, stdout = [response i c],
              files = files (main env Create (Some (create_request c)) fs)\<rparr>"
  using create_then_read [OF assms(1,2), of env'] universal_newlines_id [OF assms(3)] by simp

text \<open>
  C2. The round trip of create and read (create with content \<open>c\<close> answers with \<open>c\<close>,
  and a read of the returned \<^verbatim>\<open>id\<close> answers with \<open>c\<close>) does not hold for every content
  string: at the content \<^verbatim>\<open>'a\rb'\<close> create answers with \<^verbatim>\<open>'a\rb'\<close> and the read of the
  returned \<^verbatim>\<open>id\<close> answers with \<^verbatim>\<open>'a\nb'\<close>.
\<close>

theorem create_read_carriage_return:
  "stdout (main env0 Create (Some (create_request (ascii ''a'' @ cr # ascii ''b''))) fs0) =
     [response (ascii ''/tmp/tmpe67t2ada'') (ascii ''a'' @ cr # ascii ''b'')] \<and>
   stdout (main env0 Read (Some (id_request (ascii ''/tmp/tmpe67t2ada'')))
     (files (main env0 Create (Some (create_request (ascii ''a'' @ cr # ascii ''b''))) fs0))) =
     [response (ascii ''/tmp/tmpe67t2ada'') (ascii ''a'' @ lf # ascii ''b'')]"
proof -
  have "list_all text_encodable (ascii ''a'' @ cr # ascii ''b'')"
    by (simp add: ascii_def text_encodable_def)
  then show ?thesis
    by (simp add: create0)
      (simp add: handler_defs lib_defs os_defs path_defs request_defs env0_def fs0_def)
qed


end
